theory Spec2Isabelle
  imports Main "HOL-Library.AList" "HOL-Library.List_Lexorder"
    "HOL-Library.Multiset"
begin

section \<open>Python strings\<close>

text \<open>
  A Python \<^verbatim>\<open>str\<close> is the list of its Unicode code points; \<open>ascii\<close> writes an ASCII
  literal as such a list. \<^verbatim>\<open>str.split()\<close> and \<^verbatim>\<open>str.strip()\<close> cut at the code points that
  Python takes for white space: the ASCII ones (tab, line feed, vertical tab, form
  feed, carriage return, the separators 0x1C to 0x1F, the blank) and U+0085, U+00A0,
  U+1680, U+2000 to U+200A, U+2028, U+2029, U+202F, U+205F and U+3000.
\<close>

type_synonym str = "nat list"

definition ascii :: "string \<Rightarrow> str" where
  "ascii s = map of_char s"

definition isspace :: "nat \<Rightarrow> bool" where
  "isspace c \<longleftrightarrow>
     c \<in> set [0x09, 0x0A, 0x0B, 0x0C, 0x0D, 0x1C, 0x1D, 0x1E, 0x1F, 0x20, 0x85, 0xA0, 0x1680,
              0x2000, 0x2001, 0x2002, 0x2003, 0x2004, 0x2005, 0x2006, 0x2007, 0x2008, 0x2009,
              0x200A, 0x2028, 0x2029, 0x202F, 0x205F, 0x3000]"

definition strip :: "str \<Rightarrow> str" where
  "strip s = rev (dropWhile isspace (rev (dropWhile isspace s)))"

text \<open>\<^verbatim>\<open>s.split()\<close>: the maximal runs of characters that are not white space. The first
  argument is the word read so far.\<close>

fun split_from :: "str \<Rightarrow> str \<Rightarrow> str list" where
  "split_from w [] = (if w = [] then [] else [w])"
| "split_from w (c # cs) =
     (if isspace c then (if w = [] then split_from [] cs else w # split_from [] cs)
      else split_from (w @ [c]) cs)"

definition split :: "str \<Rightarrow> str list" where
  "split s = split_from [] s"

text \<open>\<^verbatim>\<open>s.split(sep)\<close> for a one-character separator: empty fields are kept.\<close>

fun split_on_from :: "nat \<Rightarrow> str \<Rightarrow> str \<Rightarrow> str list" where
  "split_on_from sep w [] = [w]"
| "split_on_from sep w (c # cs) =
     (if c = sep then w # split_on_from sep [] cs else split_on_from sep (w @ [c]) cs)"

definition split_on :: "nat \<Rightarrow> str \<Rightarrow> str list" where
  "split_on sep s = split_on_from sep [] s"

text \<open>\<^verbatim>\<open>s.startswith(p)\<close> and \<^verbatim>\<open>p in s\<close>.\<close>

fun startswith :: "str \<Rightarrow> str \<Rightarrow> bool" where
  "startswith s [] = True"
| "startswith [] (p # ps) = False"
| "startswith (c # cs) (p # ps) = (c = p \<and> startswith cs ps)"

fun contains :: "str \<Rightarrow> str \<Rightarrow> bool" where
  "contains p [] = (p = [])"
| "contains p (c # cs) = (startswith (c # cs) p \<or> contains p cs)"

text \<open>\<^verbatim>\<open>str(n)\<close> for a natural number (the digits start at code point 48),
  \<^verbatim>\<open>f"{s:<8}"\<close> and \<^verbatim>\<open>f"{s:>2}"\<close> (padding never truncates), and \<^verbatim>\<open>sep.join(xs)\<close>.\<close>

fun str_nat :: "nat \<Rightarrow> str" where
  "str_nat n = (if n < 10 then [48 + n] else str_nat (n div 10) @ [48 + n mod 10])"

definition ljust :: "nat \<Rightarrow> str \<Rightarrow> str" where
  "ljust width s = s @ replicate (width - length s) (of_char CHR '' '')"

definition rjust :: "nat \<Rightarrow> str \<Rightarrow> str" where
  "rjust width s = replicate (width - length s) (of_char CHR '' '') @ s"

fun join :: "str \<Rightarrow> str list \<Rightarrow> str" where
  "join sep [] = []"
| "join sep [x] = x"
| "join sep (x # y # ys) = x @ sep @ join sep (y # ys)"

definition quoted :: "str \<Rightarrow> str" where
  "quoted s = [0x27] @ s @ [0x27]"

definition nl :: str where
  "nl = [0x0A]"

section \<open>Exceptions\<close>

text \<open>
  The exceptions the handlers catch. An \<^verbatim>\<open>OSError\<close> carries its error number and the
  file name; \<^verbatim>\<open>FileNotFoundError\<close> is \<open>OSError ENOENT\<close>, \<^verbatim>\<open>NotADirectoryError\<close> is
  \<open>OSError ENOTDIR\<close>, \<^verbatim>\<open>PermissionError\<close> is \<open>OSError EACCES\<close>, \<^verbatim>\<open>FileExistsError\<close> is
  \<open>OSError EEXIST\<close> and \<^verbatim>\<open>IsADirectoryError\<close> is \<open>OSError EISDIR\<close>. The other constructors
  carry the text of \<^verbatim>\<open>str(e)\<close>.
\<close>

datatype errno = ENOENT | ENOTDIR | EACCES | EEXIST | EISDIR

datatype exn =
    OSError errno str
  | ValueError str
  | TimeoutExpired str
  | AuthenticationError str
  | RateLimitError str
  | APIConnectionError str
  | APIError str
  | InvalidRequestError str
  | Timeout str
  | ConnectionError str
  | NoSuchProcess str
  | AccessDenied str
  | ZombieProcess str
  | RecursionError str
  | Exception str

fun strerror :: "errno \<Rightarrow> str" where
  "strerror ENOENT = (ascii ''[Errno 2] No such file or directory'')"
| "strerror ENOTDIR = (ascii ''[Errno 20] Not a directory'')"
| "strerror EACCES = (ascii ''[Errno 13] Permission denied'')"
| "strerror EEXIST = (ascii ''[Errno 17] File exists'')"
| "strerror EISDIR = (ascii ''[Errno 21] Is a directory'')"

text \<open>\<^verbatim>\<open>str(e)\<close>. The file name of an \<^verbatim>\<open>OSError\<close> is shown between single quotes (the
  escapes of \<^verbatim>\<open>repr\<close> are not modelled).\<close>

fun str_exn :: "exn \<Rightarrow> str" where
  "str_exn (OSError e f) = strerror e @ (ascii '': '') @ quoted f"
| "str_exn (ValueError m) = m"
| "str_exn (TimeoutExpired m) = m"
| "str_exn (AuthenticationError m) = m"
| "str_exn (RateLimitError m) = m"
| "str_exn (APIConnectionError m) = m"
| "str_exn (APIError m) = m"
| "str_exn (InvalidRequestError m) = m"
| "str_exn (Timeout m) = m"
| "str_exn (ConnectionError m) = m"
| "str_exn (NoSuchProcess m) = m"
| "str_exn (AccessDenied m) = m"
| "str_exn (ZombieProcess m) = m"
| "str_exn (RecursionError m) = m"
| "str_exn (Exception m) = m"

section \<open>The process state\<close>

text \<open>
  A file system maps the absolute path of every file and directory (the list of its
  names from the root; the root itself is \<open>[]\<close> and is always a directory) to its node.
  The flag of a node says whether the user may use it: search, read and write a
  directory, read a file. A file holds its bytes. Links, owners and modes are not
  modelled.
\<close>

type_synonym path = "str list"

type_synonym bytes = "nat list"

datatype node = Dir bool | File bool bytes

record HistoryEntry =
  h_timestamp :: str
  h_command :: str
  h_output :: str
  h_success :: bool

type_synonym command_history = "str \<rightharpoonup> HistoryEntry list"

text \<open>The calls that leave the process: the completion service, \<^verbatim>\<open>subprocess.run\<close> and
  \<^verbatim>\<open>os.system\<close>.\<close>

datatype call = Translate str | Subprocess str | System str

text \<open>
  The state the program reads and changes: the file system and the working directory of
  the process, the lines printed by \<^verbatim>\<open>terminal.py\<close>, the \<^verbatim>\<open>session_id\<close> of the Flask
  session and the module variable \<^verbatim>\<open>command_history\<close> of \<^verbatim>\<open>app.py\<close>, the number of
  identifiers drawn from \<^verbatim>\<open>uuid.uuid4()\<close>, and the log of the calls that left the
  process (a record of what happened, which no function reads).
\<close>

record world =
  fs :: "(path \<times> node) list"
  cwd :: path
  stdout :: "str list"
  session :: "str option"
  command_history :: command_history
  uuid_count :: nat
  calls :: "call list"

definition node_at :: "world \<Rightarrow> path \<Rightarrow> node option" where
  "node_at w p = (if p = [] then Some (Dir True) else map_of (fs w) p)"

text \<open>
  Path resolution, one name at a time from the directory \<open>d\<close>: the directory a name is
  looked up in must exist, be a directory and be searchable; an empty name and \<open>.\<close> stay,
  \<open>..\<close> goes to the parent (the root is its own parent).
\<close>

fun walk :: "world \<Rightarrow> path \<Rightarrow> str list \<Rightarrow> errno + path" where
  "walk w d [] = Inr d"
| "walk w d (c # cs) =
     (case node_at w d of
        None \<Rightarrow> Inl ENOENT
      | Some (File a x) \<Rightarrow> Inl ENOTDIR
      | Some (Dir a) \<Rightarrow>
          if \<not> a then Inl EACCES
          else if c = [] \<or> c = (ascii ''.'') then walk w d cs
          else if c = (ascii ''..'') then walk w (butlast d) cs
          else walk w (d @ [c]) cs)"

definition resolve :: "world \<Rightarrow> str \<Rightarrow> exn + path" where
  "resolve w s =
     (if 0x00 \<in> set s then Inl (ValueError (ascii ''embedded null byte''))
      else if s = [] then Inl (OSError ENOENT s)
      else case walk w (if startswith s (ascii ''/'') then [] else cwd w) (split_on (of_char CHR ''/'') s) of
             Inl e \<Rightarrow> Inl (OSError e s)
           | Inr p \<Rightarrow> Inr p)"

definition os_stat :: "world \<Rightarrow> str \<Rightarrow> exn + node" where
  "os_stat w s =
     (case resolve w s of
        Inl e \<Rightarrow> Inl e
      | Inr p \<Rightarrow> (case node_at w p of None \<Rightarrow> Inl (OSError ENOENT s) | Some n \<Rightarrow> Inr n))"

text \<open>\<^verbatim>\<open>os.path.exists\<close>, \<^verbatim>\<open>os.path.isdir\<close> and \<^verbatim>\<open>os.path.isfile\<close> answer False when the
  status call fails; \<^verbatim>\<open>os.path.getsize\<close> raises.\<close>

definition os_path_exists :: "world \<Rightarrow> str \<Rightarrow> bool" where
  "os_path_exists w s = (case os_stat w s of Inl e \<Rightarrow> False | Inr n \<Rightarrow> True)"

definition os_path_isdir :: "world \<Rightarrow> str \<Rightarrow> bool" where
  "os_path_isdir w s =
     (case os_stat w s of Inl e \<Rightarrow> False | Inr (Dir a) \<Rightarrow> True | Inr (File a c) \<Rightarrow> False)"

definition os_path_isfile :: "world \<Rightarrow> str \<Rightarrow> bool" where
  "os_path_isfile w s =
     (case os_stat w s of Inl e \<Rightarrow> False | Inr (Dir a) \<Rightarrow> False | Inr (File a c) \<Rightarrow> True)"

definition os_path_getsize :: "world \<Rightarrow> str \<Rightarrow> exn + nat" where
  "os_path_getsize w s =
     (case os_stat w s of
        Inl e \<Rightarrow> Inl e
      | Inr (Dir a) \<Rightarrow> Inr 4096
      | Inr (File a c) \<Rightarrow> Inr (length c))"

definition os_chdir :: "world \<Rightarrow> str \<Rightarrow> exn + world" where
  "os_chdir w s =
     (case resolve w s of
        Inl e \<Rightarrow> Inl e
      | Inr p \<Rightarrow>
          (case node_at w p of
             None \<Rightarrow> Inl (OSError ENOENT s)
           | Some (File a c) \<Rightarrow> Inl (OSError ENOTDIR s)
           | Some (Dir a) \<Rightarrow> if a then Inr (w\<lparr>cwd := p\<rparr>) else Inl (OSError EACCES s)))"

definition abspath :: "path \<Rightarrow> str" where
  "abspath p = (ascii ''/'') @ join (ascii ''/'') p"

definition os_getcwd :: "world \<Rightarrow> exn + str" where
  "os_getcwd w =
     (case node_at w (cwd w) of
        Some (Dir a) \<Rightarrow> Inr (abspath (cwd w))
      | Some (File a c) \<Rightarrow> Inl (OSError ENOENT [])
      | None \<Rightarrow> Inl (OSError ENOENT []))"

definition rstrip_slash :: "str \<Rightarrow> str" where
  "rstrip_slash s = rev (dropWhile (\<lambda>c. c = (of_char CHR ''/'')) (rev s))"

text \<open>The system call \<^verbatim>\<open>mkdir\<close>: trailing slashes are ignored, the parent must be a
  directory the user may write, and the name must be free.\<close>

definition os_mkdir :: "world \<Rightarrow> str \<Rightarrow> exn + world" where
  "os_mkdir w s =
     (if 0x00 \<in> set s then Inl (ValueError (ascii ''embedded null byte''))
      else if s = [] then Inl (OSError ENOENT s)
      else case walk w (if startswith s (ascii ''/'') then [] else cwd w)
                  (split_on (of_char CHR ''/'') (rstrip_slash s)) of
             Inl e \<Rightarrow> Inl (OSError e s)
           | Inr p \<Rightarrow>
               (case node_at w p of
                  Some n \<Rightarrow> Inl (OSError EEXIST s)
                | None \<Rightarrow>
                    (case node_at w (butlast p) of
                       None \<Rightarrow> Inl (OSError ENOENT s)
                     | Some (File a c) \<Rightarrow> Inl (OSError ENOTDIR s)
                     | Some (Dir a) \<Rightarrow>
                         if a then Inr (w\<lparr>fs := (p, Dir True) # fs w\<rparr>)
                         else Inl (OSError EACCES s))))"

text \<open>\<^verbatim>\<open>os.remove\<close>: unlinks a file from a directory the user may write.\<close>

definition os_remove :: "world \<Rightarrow> str \<Rightarrow> exn + world" where
  "os_remove w s =
     (case resolve w s of
        Inl e \<Rightarrow> Inl e
      | Inr p \<Rightarrow>
          (case node_at w p of
             None \<Rightarrow> Inl (OSError ENOENT s)
           | Some (Dir a) \<Rightarrow> Inl (OSError EISDIR s)
           | Some (File a c) \<Rightarrow>
               (case node_at w (butlast p) of
                  None \<Rightarrow> Inl (OSError ENOENT s)
                | Some (File b d) \<Rightarrow> Inl (OSError ENOTDIR s)
                | Some (Dir b) \<Rightarrow>
                    if b then Inr (w\<lparr>fs := AList.delete p (fs w)\<rparr>)
                    else Inl (OSError EACCES s))))"

definition os_listdir :: "world \<Rightarrow> str \<Rightarrow> exn + str list" where
  "os_listdir w s =
     (case resolve w s of
        Inl e \<Rightarrow> Inl e
      | Inr p \<Rightarrow>
          (case node_at w p of
             None \<Rightarrow> Inl (OSError ENOENT s)
           | Some (File a c) \<Rightarrow> Inl (OSError ENOTDIR s)
           | Some (Dir a) \<Rightarrow>
               if a then Inr (map (last \<circ> fst) (filter (\<lambda>(q, n). q \<noteq> [] \<and> butlast q = p) (fs w)))
               else Inl (OSError EACCES s)))"

text \<open>The bytes that \<^verbatim>\<open>open(file_name, 'r', encoding='utf-8', errors='replace')\<close> reads;
  the handlers turn them into text.\<close>

definition read_file :: "world \<Rightarrow> str \<Rightarrow> exn + bytes" where
  "read_file w s =
     (case resolve w s of
        Inl e \<Rightarrow> Inl e
      | Inr p \<Rightarrow>
          (case node_at w p of
             None \<Rightarrow> Inl (OSError ENOENT s)
           | Some (Dir a) \<Rightarrow> Inl (OSError EISDIR s)
           | Some (File a c) \<Rightarrow> if a then Inr c else Inl (OSError EACCES s)))"

text \<open>\<^verbatim>\<open>os.path.split\<close> and \<^verbatim>\<open>os.path.join\<close> of \<^verbatim>\<open>posixpath\<close>.\<close>

definition os_path_split :: "str \<Rightarrow> str \<times> str" where
  "os_path_split p =
     (let tail = rev (takeWhile (\<lambda>c. c \<noteq> (of_char CHR ''/'')) (rev p));
          head = rev (dropWhile (\<lambda>c. c \<noteq> (of_char CHR ''/'')) (rev p))
      in (if head \<noteq> [] \<and> \<not> list_all (\<lambda>c. c = (of_char CHR ''/'')) head then rstrip_slash head else head,
          tail))"

definition os_path_join :: "str \<Rightarrow> str \<Rightarrow> str" where
  "os_path_join a b =
     (if startswith b (ascii ''/'') then b
      else if a = [] then b
      else if last a = (of_char CHR ''/'') then a @ b
      else a @ (ascii ''/'') @ b)"

section \<open>The environment of a request\<close>

text \<open>
  What the program takes from outside and does not compute:
  \<^item> whether the key of the completion service is set (\<^verbatim>\<open>AI_ENABLED\<close>), and the text the
    service answers to an instruction (\<^verbatim>\<open>response.choices[0].message.content\<close>) or the
    exception of the call;
  \<^item> the outcome of \<^verbatim>\<open>subprocess.run\<close> on a command line, with the file system the child
    process leaves;
  \<^item> what \<^verbatim>\<open>os.path.expanduser\<close> consults: the variable \<^verbatim>\<open>HOME\<close> if set,
    \<^verbatim>\<open>pwd.getpwuid(os.getuid()).pw_dir\<close> and \<^verbatim>\<open>pwd.getpwnam(name).pw_dir\<close> (\<open>None\<close> for the
    \<^verbatim>\<open>KeyError\<close> of an unknown user);
  \<^item> the samples of \<^verbatim>\<open>psutil\<close>, floating-point values as Python prints them. An element
    of \<open>process_iter\<close> is what reading \<^verbatim>\<open>proc.info\<close> gives for one process: its id and its
    name (\<open>None\<close> when the name may not be read), or the exception raised.
    \<^verbatim>\<open>psutil.process_iter(['pid', 'name'])\<close> itself leaves out the processes that are gone
    and fills \<^verbatim>\<open>proc.info\<close> before it yields, so that the elements it delivers raise
    nothing;
  \<^item> the identifiers of \<^verbatim>\<open>uuid.uuid4()\<close> and the clock;
  \<^item> the number of nested calls of the completion service for which the stack of the
    interpreter has room, and the text of the \<^verbatim>\<open>RecursionError\<close> raised beyond it;
  \<^item> the tables of Unicode: the lower case of the code point at a position of a string
    (the position matters for the Greek capital sigma), consulted for the code points
    from 128 on that are not white space, and the text that the bytes of a file decode
    to (UTF-8 with replacement, line ends translated).
\<close>

datatype completed_process = CompletedProcess int str str

record svmem =
  vm_total :: nat
  vm_available :: nat
  vm_used :: nat
  vm_percent :: str

type_synonym proc = "exn + nat \<times> str option"

record env =
  AI_ENABLED :: bool
  ChatCompletion_create :: "str \<Rightarrow> exn + str"
  subprocess_run :: "str \<Rightarrow> world \<Rightarrow> (exn + completed_process) \<times> (path \<times> node) list"
  HOME :: "str option"
  getpwuid_dir :: "str option"
  pw_dir :: "str \<Rightarrow> str option"
  cpu_percent :: "exn + str"
  virtual_memory :: "exn + svmem"
  process_iter :: "proc list"
  uuid4 :: "nat \<Rightarrow> str"
  datetime_now :: str
  recursion_limit :: nat
  RecursionError_text :: str
  unicode_lower :: "str \<Rightarrow> nat \<Rightarrow> str"
  decode_text :: "bytes \<Rightarrow> str"

text \<open>
  \<^verbatim>\<open>s.lower()\<close>, code point by code point: the letters A to Z move to a to z, the other
  ASCII code points and the white space stay, and the rest is looked up in the table.
\<close>

definition lower_at :: "env \<Rightarrow> str \<Rightarrow> nat \<Rightarrow> nat \<Rightarrow> str" where
  "lower_at env s i c =
     (if 0x41 \<le> c \<and> c \<le> 0x5A then [c + 0x20]
      else if c < 0x80 then [c]
      else if isspace c then [c]
      else unicode_lower env s i)"

fun lower_from :: "env \<Rightarrow> str \<Rightarrow> nat \<Rightarrow> str \<Rightarrow> str" where
  "lower_from env s i [] = []"
| "lower_from env s i (c # cs) = lower_at env s i c @ lower_from env s (Suc i) cs"

definition lower :: "env \<Rightarrow> str \<Rightarrow> str" where
  "lower env s = lower_from env s 0 s"

section \<open>Session history ledger (app.py)\<close>

text \<open>
  \<^verbatim>\<open>
  def get_session_id():
      if 'session_id' not in session:
          session['session_id'] = str(uuid.uuid4())
      return session['session_id']

  def add_to_history(session_id, command, output, success):
      if session_id not in command_history:
          command_history[session_id] = []
      command_history[session_id].append({
          'timestamp': datetime.now().isoformat(),
          'command': command, 'output': output, 'success': success })
  \<close>
\<close>

definition get_session_id :: "env \<Rightarrow> world \<Rightarrow> str \<times> world" where
  "get_session_id env w =
     (case session w of
        Some sid \<Rightarrow> (sid, w)
      | None \<Rightarrow>
          (let sid = uuid4 env (uuid_count w)
           in (sid, w\<lparr>session := Some sid, uuid_count := Suc (uuid_count w)\<rparr>)))"

definition add_to_history :: "env \<Rightarrow> world \<Rightarrow> str \<Rightarrow> str \<Rightarrow> str \<Rightarrow> bool \<Rightarrow> world" where
  "add_to_history env w session_id cmd out succ =
     (let ch = (case command_history w session_id of
                  None \<Rightarrow> (command_history w)(session_id \<mapsto> [])
                | Some es \<Rightarrow> command_history w);
          entry = \<lparr>h_timestamp = datetime_now env, h_command = cmd,
                   h_output = out, h_success = succ\<rparr>
      in case ch session_id of
           None \<Rightarrow> w\<lparr>command_history := ch\<rparr>
         | Some es \<Rightarrow> w\<lparr>command_history := ch(session_id \<mapsto> es @ [entry])\<rparr>)"

text \<open>
  \<^verbatim>\<open>
  def get_history():
      session_id = get_session_id()
      history = command_history.get(session_id, [])
      return jsonify({'history': history})
  \<close>
  The model returns the list that is serialised.
\<close>

definition get_history :: "env \<Rightarrow> world \<Rightarrow> HistoryEntry list \<times> world" where
  "get_history env w =
     (let (session_id, w1) = get_session_id env w
      in (case command_history w1 session_id of None \<Rightarrow> [] | Some es \<Rightarrow> es, w1))"

section \<open>Library functions used by the handlers\<close>

text \<open>
  \<^verbatim>\<open>os.path.expanduser\<close> of \<^verbatim>\<open>posixpath\<close>: a path that starts with \<^verbatim>\<open>~\<close> has the part up to
  the first slash replaced by a home directory: for \<^verbatim>\<open>~\<close> alone the value of \<^verbatim>\<open>HOME\<close> or,
  when it is not set, the directory of the user in the password database; for
  \<^verbatim>\<open>~name\<close> the directory of that user. When the database has no entry the path is
  returned unchanged.
\<close>

definition expanduser :: "env \<Rightarrow> str \<Rightarrow> str" where
  "expanduser env p =
     (if \<not> startswith p (ascii ''~'') then p
      else let name = takeWhile (\<lambda>c. c \<noteq> (of_char CHR ''/'')) (tl p);
               rest = dropWhile (\<lambda>c. c \<noteq> (of_char CHR ''/'')) (tl p)
           in case (if name = []
                    then (case HOME env of None \<Rightarrow> getpwuid_dir env | Some h \<Rightarrow> Some h)
                    else pw_dir env name) of
                None \<Rightarrow> p
              | Some userhome \<Rightarrow>
                  (if rstrip_slash userhome @ rest = [] then (ascii ''/'')
                   else rstrip_slash userhome @ rest))"

text \<open>
  \<^verbatim>\<open>os.makedirs(name, exist_ok=False)\<close>:
  \<^verbatim>\<open>
  head, tail = path.split(name)
  if not tail:
      head, tail = path.split(head)
  if head and tail and not path.exists(head):
      try:
          makedirs(head, exist_ok=exist_ok)
      except FileExistsError:
          pass
      if tail == curdir:
          return
  try:
      mkdir(name, mode)
  except OSError:
      if not exist_ok or not path.isdir(name):
          raise
  \<close>
  The result is the exception raised, if any, and the file system as it is left: the
  directories made before the exception stay.
\<close>

definition makedirs_head_tail :: "str \<Rightarrow> str \<times> str" where
  "makedirs_head_tail name =
     (if snd (os_path_split name) = [] then os_path_split (fst (os_path_split name))
      else os_path_split name)"

definition mkdir_raise :: "world \<Rightarrow> str \<Rightarrow> exn option \<times> world" where
  "mkdir_raise w name = (case os_mkdir w name of Inl e \<Rightarrow> (Some e, w) | Inr w1 \<Rightarrow> (None, w1))"

lemma os_path_split_length:
  "length (fst (os_path_split p)) + length (snd (os_path_split p)) \<le> length p"
proof -
  let ?t = "takeWhile (\<lambda>c. c \<noteq> (of_char CHR ''/'')) (rev p)"
  let ?d = "dropWhile (\<lambda>c. c \<noteq> (of_char CHR ''/'')) (rev p)"
  have "length ?t + length ?d = length p"
    by (metis length_append length_rev takeWhile_dropWhile_id)
  moreover have "length (rstrip_slash (rev ?d)) \<le> length ?d"
    by (simp add: rstrip_slash_def length_dropWhile_le)
  ultimately show ?thesis
    by (auto simp: os_path_split_def Let_def)
qed

lemma makedirs_head_shorter:
  "snd (makedirs_head_tail name) \<noteq> [] \<Longrightarrow> length (fst (makedirs_head_tail name)) < length name"
proof -
  assume t: "snd (makedirs_head_tail name) \<noteq> []"
  have a: "length (fst (os_path_split name)) + length (snd (os_path_split name)) \<le> length name"
    by (rule os_path_split_length)
  have b: "length (fst (os_path_split (fst (os_path_split name)))) +
           length (snd (os_path_split (fst (os_path_split name)))) \<le>
           length (fst (os_path_split name))"
    by (rule os_path_split_length)
  show ?thesis
  proof (cases "snd (os_path_split name) = []")
    case True
    with t have "0 < length (snd (os_path_split (fst (os_path_split name))))"
      by (simp add: makedirs_head_tail_def)
    with a b have "length (fst (os_path_split (fst (os_path_split name)))) < length name"
      by arith
    with True show ?thesis
      by (simp add: makedirs_head_tail_def)
  next
    case False
    then have "0 < length (snd (os_path_split name))"
      by simp
    with a have "length (fst (os_path_split name)) < length name"
      by arith
    with False show ?thesis
      by (simp add: makedirs_head_tail_def)
  qed
qed

fun is_FileExistsError :: "exn \<Rightarrow> bool" where
  "is_FileExistsError (OSError EEXIST f) = True"
| "is_FileExistsError e = False"

function os_makedirs :: "world \<Rightarrow> str \<Rightarrow> exn option \<times> world" where
  "os_makedirs w name =
     (if fst (makedirs_head_tail name) \<noteq> [] \<and> snd (makedirs_head_tail name) \<noteq> [] \<and>
         \<not> os_path_exists w (fst (makedirs_head_tail name))
      then
        (case os_makedirs w (fst (makedirs_head_tail name)) of
           (r, w1) \<Rightarrow>
             if (case r of None \<Rightarrow> False | Some e \<Rightarrow> \<not> is_FileExistsError e) then (r, w1)
             else if snd (makedirs_head_tail name) = (ascii ''.'') then (None, w1)
             else mkdir_raise w1 name)
      else mkdir_raise w name)"
  by pat_completeness auto
termination
  by (relation "measure (\<lambda>(w, name). length name)") (auto simp: makedirs_head_shorter)

declare os_makedirs.simps [simp del]

section \<open>Handlers of app.py\<close>

type_synonym result = "bool \<times> str \<times> str"

text \<open>
  \<^verbatim>\<open>
  def _handle_pwd():
      try:
          current_dir = os.getcwd()
          return True, current_dir, ""
      except Exception as e:
          return False, "", f"Error getting current directory: {str(e)}"
  \<close>
\<close>

definition app_handle_pwd :: "world \<Rightarrow> result" where
  "app_handle_pwd w =
     (case os_getcwd w of
        Inr current_dir \<Rightarrow> (True, current_dir, [])
      | Inl e \<Rightarrow> (False, [], (ascii ''Error getting current directory: '') @ str_exn e))"

text \<open>
  \<^verbatim>\<open>_handle_ls\<close>. The sizes are printed by
  \<^verbatim>\<open>
  if size < 1024: size_str = f"{size}B"
  elif size < 1024 * 1024: size_str = f"{size // 1024}KB"
  else: size_str = f"{size // (1024 * 1024)}MB"
  \<close>
  and an item whose size cannot be read (\<^verbatim>\<open>except OSError\<close>) is shown without a size.
  The icons are U+1F4C1 and U+1F4C4.
\<close>

definition size_str :: "nat \<Rightarrow> str" where
  "size_str n =
     (if n < 1024 then str_nat n @ (ascii ''B'')
      else if n < 1024 * 1024 then str_nat (n div 1024) @ (ascii ''KB'')
      else str_nat (n div (1024 * 1024)) @ (ascii ''MB''))"

definition icon_folder :: str where
  "icon_folder = [0x1F4C1]"

definition icon_file :: str where
  "icon_file = [0x1F4C4]"

definition ls_line :: "world \<Rightarrow> str \<Rightarrow> str \<Rightarrow> exn + str" where
  "ls_line w target_dir item =
     (if os_path_isdir w (os_path_join target_dir item)
      then Inr (icon_folder @ (ascii '' '') @ item @ (ascii ''/''))
      else case os_path_getsize w (os_path_join target_dir item) of
             Inr n \<Rightarrow> Inr (icon_file @ (ascii '' '') @ item @ (ascii '' ('') @ size_str n @ (ascii '')''))
           | Inl (OSError k f) \<Rightarrow> Inr (icon_file @ (ascii '' '') @ item)
           | Inl e \<Rightarrow> Inl e)"

text \<open>The loop over the items stops at the first exception that is not caught inside.\<close>

fun ls_lines :: "world \<Rightarrow> str \<Rightarrow> str list \<Rightarrow> exn + str list" where
  "ls_lines w target_dir [] = Inr []"
| "ls_lines w target_dir (item # items) =
     (case ls_line w target_dir item of
        Inl e \<Rightarrow> Inl e
      | Inr l \<Rightarrow>
          (case ls_lines w target_dir items of Inl e \<Rightarrow> Inl e | Inr ls \<Rightarrow> Inr (l # ls)))"

definition app_handle_ls :: "world \<Rightarrow> str list \<Rightarrow> result" where
  "app_handle_ls w args =
     (let target_dir = (case args of [] \<Rightarrow> (ascii ''.'') | a # rest \<Rightarrow> a)
      in if \<not> os_path_exists w target_dir
         then (False, [], (ascii ''Directory not found: '') @ quoted target_dir)
         else if \<not> os_path_isdir w target_dir
         then (False, [], (ascii ''Not a directory: '') @ quoted target_dir)
         else case os_listdir w target_dir of
                Inl e \<Rightarrow> (False, [], (ascii ''Error listing directory: '') @ str_exn e)
              | Inr items \<Rightarrow>
                  if items = [] then (True, (ascii ''Directory is empty''), [])
                  else case ls_lines w target_dir (sort items) of
                         Inl e \<Rightarrow> (False, [], (ascii ''Error listing directory: '') @ str_exn e)
                       | Inr output_lines \<Rightarrow> (True, join nl output_lines, []))"

text \<open>
  \<^verbatim>\<open>_handle_cd_robust\<close>. The body of the \<^verbatim>\<open>try\<close> up to the \<^verbatim>\<open>return\<close>, and the chain of
  \<^verbatim>\<open>except\<close> clauses, are the same in both files:
  \<^verbatim>\<open>
  if target_dir == "..": os.chdir("..")
  elif target_dir == ".": pass
  elif target_dir.startswith("~"):
      target_dir = os.path.expanduser(target_dir)
      os.chdir(target_dir)
  else: os.chdir(target_dir)
  ...
  except FileNotFoundError: return False, "", f"cd: no such directory: '{args[0]}'"
  except NotADirectoryError: return False, "", f"cd: not a directory: '{args[0]}'"
  except PermissionError: return False, "", f"cd: permission denied: '{args[0]}'"
  except Exception as e: return False, "", f"cd: error: {str(e)}"
  \<close>
\<close>

definition cd_try :: "env \<Rightarrow> world \<Rightarrow> str \<Rightarrow> exn + world" where
  "cd_try env w target_dir =
     (if target_dir = (ascii ''..'') then os_chdir w (ascii ''..'')
      else if target_dir = (ascii ''.'') then Inr w
      else if startswith target_dir (ascii ''~'') then os_chdir w (expanduser env target_dir)
      else os_chdir w target_dir)"

fun cd_except :: "str \<Rightarrow> exn \<Rightarrow> result" where
  "cd_except a (OSError ENOENT f) = (False, [], (ascii ''cd: no such directory: '') @ quoted a)"
| "cd_except a (OSError ENOTDIR f) = (False, [], (ascii ''cd: not a directory: '') @ quoted a)"
| "cd_except a (OSError EACCES f) = (False, [], (ascii ''cd: permission denied: '') @ quoted a)"
| "cd_except a e = (False, [], (ascii ''cd: error: '') @ str_exn e)"

definition app_handle_cd_robust :: "env \<Rightarrow> world \<Rightarrow> str list \<Rightarrow> result \<times> world" where
  "app_handle_cd_robust env w args =
     (case args of
        [] \<Rightarrow> ((False, [], (ascii ''cd: missing directory argument. Usage: cd <directory>'')), w)
      | target_dir # rest \<Rightarrow>
          (case cd_try env w target_dir of
             Inl e \<Rightarrow> (cd_except target_dir e, w)
           | Inr w1 \<Rightarrow>
               (case os_getcwd w1 of
                  Inl e \<Rightarrow> (cd_except target_dir e, w1)
                | Inr d \<Rightarrow> ((True, (ascii ''Changed to: '') @ d, []), w1))))"

text \<open>
  \<^verbatim>\<open>
  def _handle_mkdir_robust(args):
      if not args:
          return False, "", "mkdir: missing directory name. Usage: mkdir <directory_name>"
      dir_name = args[0]
      try:
          os.makedirs(dir_name, exist_ok=False)
          return True, f"Created directory: {dir_name}", ""
      except FileExistsError:
          return False, "", f"mkdir: cannot create directory '{dir_name}': File exists"
      except PermissionError:
          return False, "", f"mkdir: permission denied: '{dir_name}'"
      except OSError as e:
          return False, "", f"mkdir: cannot create directory '{dir_name}': {str(e)}"
      except Exception as e:
          return False, "", f"mkdir: error: {str(e)}"
  \<close>
\<close>

fun mkdir_except :: "str \<Rightarrow> exn \<Rightarrow> result" where
  "mkdir_except d (OSError EEXIST f) =
     (False, [], (ascii ''mkdir: cannot create directory '') @ quoted d @ (ascii '': File exists''))"
| "mkdir_except d (OSError EACCES f) = (False, [], (ascii ''mkdir: permission denied: '') @ quoted d)"
| "mkdir_except d (OSError n f) =
     (False, [], (ascii ''mkdir: cannot create directory '') @ quoted d @ (ascii '': '') @ str_exn (OSError n f))"
| "mkdir_except d e = (False, [], (ascii ''mkdir: error: '') @ str_exn e)"

definition app_handle_mkdir_robust :: "world \<Rightarrow> str list \<Rightarrow> result \<times> world" where
  "app_handle_mkdir_robust w args =
     (case args of
        [] \<Rightarrow> ((False, [], (ascii ''mkdir: missing directory name. Usage: mkdir <directory_name>'')), w)
      | dir_name # rest \<Rightarrow>
          (case os_makedirs w dir_name of
             (None, w1) \<Rightarrow> ((True, (ascii ''Created directory: '') @ dir_name, []), w1)
           | (Some e, w1) \<Rightarrow> (mkdir_except dir_name e, w1)))"

text \<open>
  \<^verbatim>\<open>
  def _handle_rm_robust(args):
      if not args:
          return False, "", "rm: missing file name. Usage: rm <file_name>"
      file_name = args[0]
      try:
          if os.path.isdir(file_name):
              return False, "", f"rm: cannot remove '{file_name}': Is a directory"
          os.remove(file_name)
          return True, f"Removed file: {file_name}", ""
      except FileNotFoundError:
          return False, "", f"rm: cannot remove '{file_name}': No such file"
      except IsADirectoryError:
          return False, "", f"rm: cannot remove '{file_name}': Is a directory"
      except PermissionError:
          return False, "", f"rm: permission denied: '{file_name}'"
      except Exception as e:
          return False, "", f"rm: error: {str(e)}"
  \<close>
\<close>

fun rm_except :: "str \<Rightarrow> exn \<Rightarrow> result" where
  "rm_except a (OSError ENOENT f) =
     (False, [], (ascii ''rm: cannot remove '') @ quoted a @ (ascii '': No such file''))"
| "rm_except a (OSError EISDIR f) =
     (False, [], (ascii ''rm: cannot remove '') @ quoted a @ (ascii '': Is a directory''))"
| "rm_except a (OSError EACCES f) = (False, [], (ascii ''rm: permission denied: '') @ quoted a)"
| "rm_except a e = (False, [], (ascii ''rm: error: '') @ str_exn e)"

definition app_handle_rm_robust :: "world \<Rightarrow> str list \<Rightarrow> result \<times> world" where
  "app_handle_rm_robust w args =
     (case args of
        [] \<Rightarrow> ((False, [], (ascii ''rm: missing file name. Usage: rm <file_name>'')), w)
      | file_name # rest \<Rightarrow>
          if os_path_isdir w file_name
          then ((False, [], (ascii ''rm: cannot remove '') @ quoted file_name @ (ascii '': Is a directory'')), w)
          else case os_remove w file_name of
                 Inr w1 \<Rightarrow> ((True, (ascii ''Removed file: '') @ file_name, []), w1)
               | Inl e \<Rightarrow> (rm_except file_name e, w))"

text \<open>
  \<^verbatim>\<open>_handle_cat_robust\<close>: the checks \<^verbatim>\<open>os.path.exists\<close> and \<^verbatim>\<open>os.path.isfile\<close>, then the
  read, whose bytes are decoded with \<^verbatim>\<open>errors='replace'\<close>, so that decoding never fails;
  \<^verbatim>\<open>FileNotFoundError\<close>, \<^verbatim>\<open>PermissionError\<close> and any other exception are reported.
\<close>

fun cat_except :: "str \<Rightarrow> exn \<Rightarrow> result" where
  "cat_except a (OSError ENOENT f) = (False, [], (ascii ''cat: no such file: '') @ quoted a)"
| "cat_except a (OSError EACCES f) = (False, [], (ascii ''cat: permission denied: '') @ quoted a)"
| "cat_except a e = (False, [], (ascii ''cat: error: '') @ str_exn e)"

definition app_handle_cat_robust :: "env \<Rightarrow> world \<Rightarrow> str list \<Rightarrow> result" where
  "app_handle_cat_robust env w args =
     (case args of
        [] \<Rightarrow> (False, [], (ascii ''cat: missing file name. Usage: cat <file_name>''))
      | file_name # rest \<Rightarrow>
          if \<not> os_path_exists w file_name
          then (False, [], (ascii ''cat: no such file: '') @ quoted file_name)
          else if \<not> os_path_isfile w file_name
          then (False, [], (ascii ''cat: '') @ quoted file_name @ (ascii '' is not a file''))
          else case read_file w file_name of
                 Inr content \<Rightarrow> (True, decode_text env content, [])
               | Inl e \<Rightarrow> cat_except file_name e)"

text \<open>
  \<^verbatim>\<open>
  def _handle_cpu():
      try:
          cpu_percent = psutil.cpu_percent(interval=1)
          return True, f"CPU Usage: {cpu_percent}%", ""
      except Exception as e:
          return False, "", f"Error getting CPU usage: {str(e)}"
  \<close>
\<close>

definition app_handle_cpu :: "env \<Rightarrow> result" where
  "app_handle_cpu env =
     (case cpu_percent env of
        Inr p \<Rightarrow> (True, (ascii ''CPU Usage: '') @ p @ (ascii ''%''), [])
      | Inl e \<Rightarrow> (False, [], (ascii ''Error getting CPU usage: '') @ str_exn e))"

text \<open>
  \<^verbatim>\<open>
  def format_bytes(bytes_value):
      for unit in ['B', 'KB', 'MB', 'GB', 'TB']:
          if bytes_value < 1024.0:
              return f"{bytes_value:.1f} {unit}"
          bytes_value /= 1024.0
      return f"{bytes_value:.1f} PB"
  \<close>
  The value is kept as the quotient of the byte count \<open>n\<close> by a power \<open>d\<close> of 1024 (a
  division by 1024.0 is exact on floats); \<^verbatim>\<open>:.1f\<close> prints the nearest tenth, a tie going
  to the even digit.
\<close>

definition format_1f :: "nat \<Rightarrow> nat \<Rightarrow> str" where
  "format_1f n d =
     (let q = (10 * n) div d; r = (10 * n) mod d;
          t = (if d < 2 * r \<or> (2 * r = d \<and> odd q) then q + 1 else q)
      in str_nat (t div 10) @ (ascii ''.'') @ str_nat (t mod 10))"

fun format_bytes_from :: "nat \<Rightarrow> nat \<Rightarrow> str list \<Rightarrow> str" where
  "format_bytes_from n d [] = format_1f n d @ (ascii '' PB'')"
| "format_bytes_from n d (unit # units) =
     (if n < 1024 * d then format_1f n d @ (ascii '' '') @ unit
      else format_bytes_from n (1024 * d) units)"

definition format_bytes :: "nat \<Rightarrow> str" where
  "format_bytes n = format_bytes_from n 1 [(ascii ''B''), (ascii ''KB''), (ascii ''MB''), (ascii ''GB''), (ascii ''TB'')]"

definition app_handle_memory :: "env \<Rightarrow> result" where
  "app_handle_memory env =
     (case virtual_memory env of
        Inl e \<Rightarrow> (False, [], (ascii ''Error getting memory usage: '') @ str_exn e)
      | Inr memory \<Rightarrow>
          (True,
           (ascii ''Memory Usage: '') @ vm_percent memory @ (ascii ''%'') @ nl @
           (ascii ''Total: '') @ format_bytes (vm_total memory) @
           (ascii '' | Available: '') @ format_bytes (vm_available memory) @
           (ascii '' | Used: '') @ format_bytes (vm_used memory),
           []))"

text \<open>
  \<^verbatim>\<open>
  def _handle_processes():
      try:
          processes = []
          total_count = 0
          for proc in psutil.process_iter(['pid', 'name']):
              total_count += 1
              try:
                  processes.append((proc.info['pid'], proc.info['name']))
              except (psutil.NoSuchProcess, psutil.AccessDenied, psutil.ZombieProcess):
                  continue
          processes.sort(key=lambda x: x[0])
          output = f"Total Processes: {total_count}\n"
          output += "Showing top 20:\n"
          output += "PID     Name\n"
          output += "-" * 30 + "\n"
          for pid, name in processes[:20]:
              output += f"{pid:<8} {name}\n"
          if total_count > 20:
              output += f"... and {total_count - 20} more processes"
          return True, output, ""
      except Exception as e:
          return False, "", f"Error getting process list: {str(e)}"
  \<close>
  A name that is \<^verbatim>\<open>None\<close> is printed as \<^verbatim>\<open>None\<close>.
\<close>

fun skipped :: "exn \<Rightarrow> bool" where
  "skipped (NoSuchProcess m) = True"
| "skipped (AccessDenied m) = True"
| "skipped (ZombieProcess m) = True"
| "skipped e = False"

fun collect_processes ::
  "proc list \<Rightarrow> nat \<Rightarrow> (nat \<times> str option) list \<Rightarrow>
   exn + nat \<times> (nat \<times> str option) list" where
  "collect_processes [] total_count processes = Inr (total_count, processes)"
| "collect_processes (Inr info # procs) total_count processes =
     collect_processes procs (total_count + 1) (processes @ [info])"
| "collect_processes (Inl e # procs) total_count processes =
     (if skipped e then collect_processes procs (total_count + 1) processes else Inl e)"

definition processes_header :: "nat \<Rightarrow> str" where
  "processes_header total_count =
     (ascii ''Total Processes: '') @ str_nat total_count @ nl @
     (ascii ''Showing top 20:'') @ nl @
     (ascii ''PID     Name'') @ nl @
     replicate 30 (of_char CHR ''-'') @ nl"

definition process_line :: "nat \<times> str option \<Rightarrow> str" where
  "process_line info =
     ljust 8 (str_nat (fst info)) @ (ascii '' '') @
     (case snd info of None \<Rightarrow> (ascii ''None'') | Some name \<Rightarrow> name) @ nl"

definition more_processes :: "nat \<Rightarrow> str" where
  "more_processes total_count = (ascii ''... and '') @ str_nat (total_count - 20) @ (ascii '' more processes'')"

definition app_handle_processes :: "env \<Rightarrow> result" where
  "app_handle_processes env =
     (case collect_processes (process_iter env) 0 [] of
        Inl e \<Rightarrow> (False, [], (ascii ''Error getting process list: '') @ str_exn e)
      | Inr (total_count, processes) \<Rightarrow>
          (True,
           processes_header total_count @
           concat (map process_line (take 20 (sort_key fst processes))) @
           (if 20 < total_count then more_processes total_count else []),
           []))"

text \<open>\<^verbatim>\<open>_handle_help\<close>, \<^verbatim>\<open>_handle_developer_info\<close> and \<^verbatim>\<open>_handle_clear\<close> of app.py.\<close>

definition app_handle_help :: "env \<Rightarrow> result" where
  "app_handle_help env =
     (let ai_status = (if AI_ENABLED env then (ascii ''Enabled'') else (ascii ''Disabled''))
      in (True,
          join nl
            [(ascii ''Available Commands:''),
             (ascii ''ls <dir>     - List files and directories in the current folder''),
             (ascii ''cd <dir>     - Change the current working directory''),
             (ascii ''pwd          - Print the current working directory''),
             (ascii ''mkdir <dir>  - Create a new directory''),
             (ascii ''rm <file>    - Remove a file''),
             (ascii ''cat <file>   - Display the contents of a file''),
             (ascii ''cpu          - Show CPU usage percentage''),
             (ascii ''mem/memory   - Show Memory usage statistics''),
             (ascii ''processes/ps - List running processes''),
             (ascii ''clear        - Clear the terminal screen''),
             (ascii ''history      - Show command history''),
             (ascii ''help         - Show this help message''),
             (ascii ''tellmeabout_developer - Show developer information''),
             [],
             (ascii ''AI Features:''),
             (ascii ''Natural Language - Type natural language commands (3+ words)''),
             (ascii ''AI Status: '') @ ai_status,
             [],
             (ascii ''Note: External system commands are also supported through subprocess.''),
             [],
             (ascii ''designed by Abhinav'')],
          []))"

definition app_handle_developer_info :: result where
  "app_handle_developer_info =
     (True,
      join nl
        [[],
         (ascii ''+==============================================================+''),
         (ascii ''|                    DEVELOPER INFORMATION                    |''),
         (ascii ''+==============================================================+''),
         (ascii ''|                                                              |''),
         (ascii ''|  Name:    Abhinav Singh (RA2211033010203)                   |''),
         (ascii ''|                                                              |''),
         (ascii ''|  College: SRM Institute of Science and Technology          |''),
         (ascii ''|                                                              |''),
         (ascii ''|  Course:  B.Tech Computer Science Engineering with        |''),
         (ascii ''|            specialization in Software Engineering              |''),
         (ascii ''|                                                              |''),
         (ascii ''+==============================================================+''),
         [],
         (ascii ''Thank you for using PyTerminal Web!''),
         []],
      [])"

definition app_handle_clear :: result where
  "app_handle_clear = (True, (ascii ''CLEAR_SCREEN''), [])"

text \<open>
  \<^verbatim>\<open>
  def _handle_history():
      try:
          session_id = get_session_id()
          if session_id not in command_history or not command_history[session_id]:
              return True, "No commands in history", ""
          history_output = "Command History:\n"
          history_output += "-" * 50 + "\n"
          for i, entry in enumerate(command_history[session_id][-20:], 1):
              status = "(check mark)" if entry['success'] else "(cross)"
              history_output += f"{i:2d}. {status} {entry['command']}\n"
          return True, history_output, ""
  \<close>
  The marks are U+2713 and U+2717.
\<close>

definition history_line :: "nat \<times> HistoryEntry \<Rightarrow> str" where
  "history_line ie =
     rjust 2 (str_nat (fst ie)) @ (ascii ''. '') @
     (if h_success (snd ie) then [0x2713] else [0x2717]) @
     (ascii '' '') @ h_command (snd ie) @ nl"

definition last20 :: "'a list \<Rightarrow> 'a list" where
  "last20 xs = drop (length xs - 20) xs"

definition app_handle_history :: "env \<Rightarrow> world \<Rightarrow> result \<times> world" where
  "app_handle_history env w =
     (let (session_id, w1) = get_session_id env w
      in case command_history w1 session_id of
           None \<Rightarrow> ((True, (ascii ''No commands in history''), []), w1)
         | Some es \<Rightarrow>
             if es = [] then ((True, (ascii ''No commands in history''), []), w1)
             else ((True,
                    (ascii ''Command History:'') @ nl @ replicate 50 (of_char CHR ''-'') @ nl @
                    concat (map history_line (zip [1 ..< Suc (length (last20 es))] (last20 es))),
                    []), w1))"

text \<open>
  \<^verbatim>\<open>
  def interpret_natural_language(user_input):
      if not AI_ENABLED:
          return False, "", "", "AI features are disabled. Please set OPENAI_API_KEY environment variable."
      try:
          response = openai.ChatCompletion.create(...)
          ai_response = response.choices[0].message.content.strip()
          if ai_response:
              command = ai_response
              explanation = f"AI converted: '{user_input}' to terminal command"
              return True, command, explanation, ""
          else:
              return False, "", "", "AI could not generate a valid command."
      except Exception as e:
          return False, "", "", f"AI Error: {str(e)}"
  \<close>
  The first argument is the number of nested calls of the service for which the stack
  still has room. The call of the service runs many frames deep inside the \<^verbatim>\<open>try\<close>, and
  each turn of the recursion of \<^verbatim>\<open>run_command\<close> and \<^verbatim>\<open>_handle_ai_command\<close> adds two
  frames outside it: when the stack is used up the \<^verbatim>\<open>RecursionError\<close> is raised inside the
  call, and the \<^verbatim>\<open>except\<close> clause catches it. The call of the service is entered in the
  log when it is made.
\<close>

definition service_call :: "nat \<Rightarrow> env \<Rightarrow> str \<Rightarrow> exn + str" where
  "service_call depth env user_input =
     (if depth = 0 then Inl (RecursionError (RecursionError_text env))
      else ChatCompletion_create env user_input)"

definition app_interpret_natural_language ::
  "nat \<Rightarrow> env \<Rightarrow> world \<Rightarrow> str \<Rightarrow> (bool \<times> str \<times> str \<times> str) \<times> world" where
  "app_interpret_natural_language depth env w user_input =
     (if \<not> AI_ENABLED env
      then ((False, [], [],
             (ascii ''AI features are disabled. Please set OPENAI_API_KEY environment variable.'')), w)
      else case service_call depth env user_input of
             Inl e \<Rightarrow>
               ((False, [], [], (ascii ''AI Error: '') @ str_exn e),
                w\<lparr>calls := calls w @ [Translate user_input]\<rparr>)
           | Inr content \<Rightarrow>
               if strip content \<noteq> []
               then ((True, strip content,
                      (ascii ''AI converted: '') @ quoted user_input @ (ascii '' to terminal command''), []),
                     w\<lparr>calls := calls w @ [Translate user_input]\<rparr>)
               else ((False, [], [], (ascii ''AI could not generate a valid command.'')),
                     w\<lparr>calls := calls w @ [Translate user_input]\<rparr>))"

text \<open>
  \<^verbatim>\<open>_handle_external_command\<close>, the same in both files:
  \<^verbatim>\<open>
  try:
      result = subprocess.run(command, shell=True, capture_output=True, text=True, timeout=30)
      if result.returncode == 0:
          return True, result.stdout, result.stderr
      else:
          return False, result.stdout, result.stderr
  except subprocess.TimeoutExpired:
      return False, "", "Command timed out after 30 seconds"
  except FileNotFoundError:
      cmd_name = command.split()[0] if command.split() else "command"
      return False, "", f"command not found: {cmd_name}"
  except Exception as e:
      return False, "", f"Error executing external command: {str(e)}"
  \<close>
  The call of the shell is entered in the log; the child process may change the files.
\<close>

fun external_except :: "str \<Rightarrow> exn \<Rightarrow> result" where
  "external_except command (TimeoutExpired m) =
     (False, [], (ascii ''Command timed out after 30 seconds''))"
| "external_except command (OSError ENOENT f) =
     (False, [], (ascii ''command not found: '') @
        (case split command of [] \<Rightarrow> (ascii ''command'') | cmd_name # rest \<Rightarrow> cmd_name))"
| "external_except command e = (False, [], (ascii ''Error executing external command: '') @ str_exn e)"

definition handle_external_command :: "env \<Rightarrow> world \<Rightarrow> str \<Rightarrow> result \<times> world" where
  "handle_external_command env w command =
     (case fst (subprocess_run env command w) of
        Inr (CompletedProcess returncode out err) \<Rightarrow> (returncode = 0, out, err)
      | Inl e \<Rightarrow> external_except command e,
      w\<lparr>fs := snd (subprocess_run env command w),
        calls := calls w @ [Subprocess command]\<rparr>)"

section \<open>The dispatcher of app.py\<close>

definition reserved_words :: "str list" where
  "reserved_words =
     [(ascii ''pwd''), (ascii ''ls''), (ascii ''cd''), (ascii ''mkdir''), (ascii ''rm''), (ascii ''cat''), (ascii ''cpu''), (ascii ''mem''), (ascii ''memory''),
      (ascii ''processes''), (ascii ''ps''), (ascii ''help''), (ascii ''tellmeabout_developer''), (ascii ''clear'')]"

definition natural_language_patterns :: "str list" where
  "natural_language_patterns =
     [(ascii ''show me''), (ascii ''list all''), (ascii ''create a''), (ascii ''what is''), (ascii ''how to''), (ascii ''can you'')]"

text \<open>
  The chain of \<^verbatim>\<open>if cmd == ...\<close> of \<^verbatim>\<open>run_command\<close> in app.py, from \<^verbatim>\<open>pwd\<close> to the final
  \<^verbatim>\<open>else\<close> that hands the whole line to the shell.
\<close>

definition app_native :: "env \<Rightarrow> world \<Rightarrow> str \<Rightarrow> str \<Rightarrow> str list \<Rightarrow> result \<times> world" where
  "app_native env w command cmd args =
     (if cmd = (ascii ''pwd'') then (app_handle_pwd w, w)
      else if cmd = (ascii ''ls'') then (app_handle_ls w args, w)
      else if cmd = (ascii ''cd'') then app_handle_cd_robust env w args
      else if cmd = (ascii ''mkdir'') then app_handle_mkdir_robust w args
      else if cmd = (ascii ''rm'') then app_handle_rm_robust w args
      else if cmd = (ascii ''cat'') then (app_handle_cat_robust env w args, w)
      else if cmd = (ascii ''cpu'') then (app_handle_cpu env, w)
      else if cmd \<in> set [(ascii ''mem''), (ascii ''memory'')] then (app_handle_memory env, w)
      else if cmd \<in> set [(ascii ''processes''), (ascii ''ps'')] then (app_handle_processes env, w)
      else if cmd = (ascii ''help'') then (app_handle_help env, w)
      else if cmd = (ascii ''tellmeabout_developer'') then (app_handle_developer_info, w)
      else if cmd = (ascii ''clear'') then (app_handle_clear, w)
      else if cmd = (ascii ''history'') then app_handle_history env w
      else handle_external_command env w command)"

text \<open>
  \<^verbatim>\<open>
  def run_command(command):
      parts = command.strip().split()
      if not parts:
          return False, "", "Empty command"
      cmd = parts[0].lower()
      args = parts[1:] if len(parts) > 1 else []
      if (len(parts) > 2 and cmd not in [...] and AI_ENABLED):
          return _handle_ai_command(command)
      natural_language_patterns = [...]
      if (any(pattern in command.lower() for pattern in natural_language_patterns)
          and AI_ENABLED):
          return _handle_ai_command(command)
      ...

  def _handle_ai_command(natural_language_input):
      success, command, explanation, error = interpret_natural_language(natural_language_input)
      if not success:
          return False, "", error
      if command:
          return run_command(command)
      else:
          return False, "", "AI could not generate a valid command."
  \<close>
  The two functions call each other with no bound of their own. The first argument is
  the number of nested calls of the service for which the stack still has room; a
  translation that succeeds uses up one.
\<close>

function app_run_command :: "nat \<Rightarrow> env \<Rightarrow> world \<Rightarrow> str \<Rightarrow> result \<times> world"
  and app_handle_ai_command :: "nat \<Rightarrow> env \<Rightarrow> world \<Rightarrow> str \<Rightarrow> result \<times> world" where
  "app_run_command depth env w command =
     (case split (strip command) of
        [] \<Rightarrow> ((False, [], (ascii ''Empty command'')), w)
      | part # args \<Rightarrow>
          if 2 < length (part # args) \<and> lower env part \<notin> set reserved_words \<and> AI_ENABLED env
          then app_handle_ai_command depth env w command
          else if list_ex (\<lambda>pattern. contains pattern (lower env command))
                    natural_language_patterns
                  \<and> AI_ENABLED env
          then app_handle_ai_command depth env w command
          else app_native env w command (lower env part) args)"
| "app_handle_ai_command depth env w natural_language_input =
     (let r = app_interpret_natural_language depth env w natural_language_input
      in if \<not> fst (fst r) then ((False, [], snd (snd (snd (fst r)))), snd r)
         else if fst (snd (fst r)) \<noteq> []
         then app_run_command (depth - 1) env (snd r) (fst (snd (fst r)))
         else ((False, [], (ascii ''AI could not generate a valid command.'')), snd r))"
  by pat_completeness auto

lemma app_interpret_success_depth:
  "fst (fst (app_interpret_natural_language depth env w user_input)) \<Longrightarrow> 0 < depth"
  by (cases depth)
    (simp_all add: app_interpret_natural_language_def service_call_def split: if_splits)

termination app_run_command
proof (relation "measure (\<lambda>x. case x of Inl (depth, env, w, c) \<Rightarrow> 2 * depth + 1
                                       | Inr (depth, env, w, c) \<Rightarrow> 2 * depth)")
  show "wf (measure (\<lambda>x. case x of Inl (depth, env, w, c) \<Rightarrow> 2 * depth + 1
                                  | Inr (depth, env, w, c) \<Rightarrow> 2 * depth))"
    by simp
next
  fix depth :: nat and env :: env and w :: world and command :: str and x21 :: str
    and x22 :: "str list"
  show "(Inr (depth, env, w, command), Inl (depth, env, w, command))
          \<in> measure (\<lambda>x. case x of Inl (depth, env, w, c) \<Rightarrow> 2 * depth + 1
                                  | Inr (depth, env, w, c) \<Rightarrow> 2 * depth)"
    by simp
next
  fix depth :: nat and env :: env and w :: world and command :: str and x21 :: str
    and x22 :: "str list"
  show "(Inr (depth, env, w, command), Inl (depth, env, w, command))
          \<in> measure (\<lambda>x. case x of Inl (depth, env, w, c) \<Rightarrow> 2 * depth + 1
                                  | Inr (depth, env, w, c) \<Rightarrow> 2 * depth)"
    by simp
next
  fix depth :: nat and env :: env and w :: world and natural_language_input :: str
    and x :: "(bool \<times> str \<times> str \<times> str) \<times> world"
  assume "x = app_interpret_natural_language depth env w natural_language_input"
    and "\<not> \<not> fst (fst x)"
  then have "0 < depth"
    using app_interpret_success_depth by blast
  then show "(Inl (depth - 1, env, snd x, fst (snd (fst x))),
              Inr (depth, env, w, natural_language_input))
          \<in> measure (\<lambda>x. case x of Inl (depth, env, w, c) \<Rightarrow> 2 * depth + 1
                                  | Inr (depth, env, w, c) \<Rightarrow> 2 * depth)"
    by simp
qed

declare app_run_command.simps [simp del] app_handle_ai_command.simps [simp del]

section \<open>The request handler of app.py\<close>

text \<open>
  \<^verbatim>\<open>
  def execute_command():
      try:
          data = request.get_json()
          command = data.get('command', '').strip()
          if not command:
              return jsonify({'success': False, 'output': '', 'error': 'Empty command'})
          if command.lower() in ['exit', 'quit', 'q']:
              return jsonify({'success': True, 'output': 'Goodbye!', 'error': '', 'exit': True})
          success, output, error = run_command(command)
          session_id = get_session_id()
          add_to_history(session_id, command, output, success)
          if output == "CLEAR_SCREEN":
              return jsonify({'success': True, 'output': '', 'error': '', 'clear': True})
          return jsonify({'success': success, 'output': output, 'error': error,
                          'current_dir': os.getcwd()})
      except Exception as e:
          return jsonify({'success': False, 'output': '', 'error': f'Server error: {str(e)}'})
  \<close>
  The request is the value of the key \<^verbatim>\<open>command\<close> of the posted object, if present.
\<close>

record response =
  r_success :: bool
  r_output :: str
  r_error :: str
  r_exit :: bool
  r_clear :: bool
  r_current_dir :: "str option"

definition jsonify :: "bool \<Rightarrow> str \<Rightarrow> str \<Rightarrow> response" where
  "jsonify succ out err =
     \<lparr>r_success = succ, r_output = out, r_error = err, r_exit = False, r_clear = False,
      r_current_dir = None\<rparr>"

definition execute_command :: "env \<Rightarrow> world \<Rightarrow> str option \<Rightarrow> response \<times> world" where
  "execute_command env w posted =
     (let command = strip (case posted of None \<Rightarrow> [] | Some c \<Rightarrow> c)
      in if command = [] then (jsonify False [] (ascii ''Empty command''), w)
         else if lower env command \<in> set [(ascii ''exit''), (ascii ''quit''), (ascii ''q'')]
         then ((jsonify True (ascii ''Goodbye!'') [])\<lparr>r_exit := True\<rparr>, w)
         else case app_run_command (recursion_limit env) env w command of
                ((succ, out, err), w1) \<Rightarrow>
                  (let (session_id, w2) = get_session_id env w1;
                       w3 = add_to_history env w2 session_id command out succ
                   in if out = (ascii ''CLEAR_SCREEN'') then ((jsonify True [] [])\<lparr>r_clear := True\<rparr>, w3)
                      else case os_getcwd w3 of
                             Inl e \<Rightarrow> (jsonify False [] ((ascii ''Server error: '') @ str_exn e), w3)
                           | Inr d \<Rightarrow> ((jsonify succ out err)\<lparr>r_current_dir := Some d\<rparr>, w3)))"

section \<open>Handlers of terminal.py\<close>

text \<open>The escape sequences of \<^verbatim>\<open>colorama\<close>.\<close>

definition Fore_RED :: str where "Fore_RED = 0x1B # (ascii ''[31m'')"
definition Fore_GREEN :: str where "Fore_GREEN = 0x1B # (ascii ''[32m'')"
definition Fore_YELLOW :: str where "Fore_YELLOW = 0x1B # (ascii ''[33m'')"
definition Fore_BLUE :: str where "Fore_BLUE = 0x1B # (ascii ''[34m'')"
definition Fore_MAGENTA :: str where "Fore_MAGENTA = 0x1B # (ascii ''[35m'')"
definition Fore_CYAN :: str where "Fore_CYAN = 0x1B # (ascii ''[36m'')"
definition Fore_LIGHTGREEN_EX :: str where "Fore_LIGHTGREEN_EX = 0x1B # (ascii ''[92m'')"
definition Fore_LIGHTBLUE_EX :: str where "Fore_LIGHTBLUE_EX = 0x1B # (ascii ''[94m'')"
definition Style_BRIGHT :: str where "Style_BRIGHT = 0x1B # (ascii ''[1m'')"
definition Style_RESET_ALL :: str where "Style_RESET_ALL = 0x1B # (ascii ''[0m'')"

text \<open>The handlers of terminal.py end their output with a line feed and colour some of
  it; otherwise they read as those of app.py.\<close>

definition terminal_handle_pwd :: "world \<Rightarrow> result" where
  "terminal_handle_pwd w =
     (case os_getcwd w of
        Inr current_dir \<Rightarrow> (True, current_dir @ nl, [])
      | Inl e \<Rightarrow> (False, [], (ascii ''Error getting current directory: '') @ str_exn e))"

definition terminal_handle_ls :: "world \<Rightarrow> str list \<Rightarrow> result" where
  "terminal_handle_ls w args =
     (let target_dir = (case args of [] \<Rightarrow> (ascii ''.'') | a # rest \<Rightarrow> a)
      in if \<not> os_path_exists w target_dir
         then (False, [], (ascii ''Directory not found: '') @ quoted target_dir)
         else if \<not> os_path_isdir w target_dir
         then (False, [], (ascii ''Not a directory: '') @ quoted target_dir)
         else case os_listdir w target_dir of
                Inl e \<Rightarrow> (False, [], (ascii ''Error listing directory: '') @ str_exn e)
              | Inr items \<Rightarrow>
                  if items = [] then (True, (ascii ''Directory is empty'') @ nl, [])
                  else case ls_lines w target_dir (sort items) of
                         Inl e \<Rightarrow> (False, [], (ascii ''Error listing directory: '') @ str_exn e)
                       | Inr output_lines \<Rightarrow> (True, join nl output_lines @ nl, []))"

text \<open>
  \<^verbatim>\<open>_handle_cd_robust\<close> of terminal.py ends its \<^verbatim>\<open>try\<close> with
  \<^verbatim>\<open>return True, "", ""  # Silent success - prompt will show new directory\<close>.
\<close>

definition terminal_handle_cd_robust :: "env \<Rightarrow> world \<Rightarrow> str list \<Rightarrow> result \<times> world" where
  "terminal_handle_cd_robust env w args =
     (case args of
        [] \<Rightarrow> ((False, [], (ascii ''cd: missing directory argument. Usage: cd <directory>'')), w)
      | target_dir # rest \<Rightarrow>
          (case cd_try env w target_dir of
             Inl e \<Rightarrow> (cd_except target_dir e, w)
           | Inr w1 \<Rightarrow> ((True, [], []), w1)))"

definition terminal_handle_mkdir_robust :: "world \<Rightarrow> str list \<Rightarrow> result \<times> world" where
  "terminal_handle_mkdir_robust w args =
     (case args of
        [] \<Rightarrow> ((False, [], (ascii ''mkdir: missing directory name. Usage: mkdir <directory_name>'')), w)
      | dir_name # rest \<Rightarrow>
          (case os_makedirs w dir_name of
             (None, w1) \<Rightarrow>
               ((True, Fore_GREEN @ (ascii ''Created directory: '') @ dir_name @ Style_RESET_ALL @ nl, []),
                w1)
           | (Some e, w1) \<Rightarrow> (mkdir_except dir_name e, w1)))"

definition terminal_handle_rm_robust :: "world \<Rightarrow> str list \<Rightarrow> result \<times> world" where
  "terminal_handle_rm_robust w args =
     (case args of
        [] \<Rightarrow> ((False, [], (ascii ''rm: missing file name. Usage: rm <file_name>'')), w)
      | file_name # rest \<Rightarrow>
          if os_path_isdir w file_name
          then ((False, [], (ascii ''rm: cannot remove '') @ quoted file_name @ (ascii '': Is a directory'')), w)
          else case os_remove w file_name of
                 Inr w1 \<Rightarrow>
                   ((True, Fore_GREEN @ (ascii ''Removed file: '') @ file_name @ Style_RESET_ALL @ nl, []),
                    w1)
               | Inl e \<Rightarrow> (rm_except file_name e, w))"

definition terminal_handle_cat_robust :: "env \<Rightarrow> world \<Rightarrow> str list \<Rightarrow> result" where
  "terminal_handle_cat_robust env w args =
     (case args of
        [] \<Rightarrow> (False, [], (ascii ''cat: missing file name. Usage: cat <file_name>''))
      | file_name # rest \<Rightarrow>
          if \<not> os_path_exists w file_name
          then (False, [], (ascii ''cat: no such file: '') @ quoted file_name)
          else if \<not> os_path_isfile w file_name
          then (False, [], (ascii ''cat: '') @ quoted file_name @ (ascii '' is not a file''))
          else case read_file w file_name of
                 Inr content \<Rightarrow> (True, decode_text env content @ nl, [])
               | Inl e \<Rightarrow> cat_except file_name e)"

text \<open>
  The older \<^verbatim>\<open>_handle_mkdir\<close> of terminal.py, which \<^verbatim>\<open>run_command\<close> does not call:
  \<^verbatim>\<open>
  def _handle_mkdir(args):
      try:
          if not args:
              return False, "", "mkdir: missing operand"
          dir_name = args[0]
          if os.path.exists(dir_name):
              if os.path.isdir(dir_name):
                  return False, "", f"Directory already exists: '{dir_name}'"
              else:
                  return False, "", f"File exists with same name: '{dir_name}'"
          os.makedirs(dir_name, exist_ok=False)
          return True, f"Created directory: {dir_name}\n", ""
      except FileExistsError:
          return False, "", f"Directory already exists: '{args[0]}'"
      except PermissionError:
          return False, "", f"Permission denied: '{args[0]}'"
      except Exception as e:
          return False, "", f"Error creating directory: {str(e)}"
  \<close>
\<close>

fun mkdir_except_old :: "str \<Rightarrow> exn \<Rightarrow> result" where
  "mkdir_except_old d (OSError EEXIST f) = (False, [], (ascii ''Directory already exists: '') @ quoted d)"
| "mkdir_except_old d (OSError EACCES f) = (False, [], (ascii ''Permission denied: '') @ quoted d)"
| "mkdir_except_old d e = (False, [], (ascii ''Error creating directory: '') @ str_exn e)"

definition terminal_handle_mkdir :: "world \<Rightarrow> str list \<Rightarrow> result \<times> world" where
  "terminal_handle_mkdir w args =
     (case args of
        [] \<Rightarrow> ((False, [], (ascii ''mkdir: missing operand'')), w)
      | dir_name # rest \<Rightarrow>
          if os_path_exists w dir_name
          then (if os_path_isdir w dir_name
                then ((False, [], (ascii ''Directory already exists: '') @ quoted dir_name), w)
                else ((False, [], (ascii ''File exists with same name: '') @ quoted dir_name), w))
          else case os_makedirs w dir_name of
                 (None, w1) \<Rightarrow> ((True, (ascii ''Created directory: '') @ dir_name @ nl, []), w1)
               | (Some e, w1) \<Rightarrow> (mkdir_except_old dir_name e, w1))"

definition terminal_handle_cpu :: "env \<Rightarrow> result" where
  "terminal_handle_cpu env =
     (case cpu_percent env of
        Inr p \<Rightarrow> (True, Fore_YELLOW @ (ascii ''CPU Usage: '') @ p @ (ascii ''%'') @ Style_RESET_ALL @ nl, [])
      | Inl e \<Rightarrow> (False, [], (ascii ''Error getting CPU usage: '') @ str_exn e))"

definition terminal_handle_memory :: "env \<Rightarrow> result" where
  "terminal_handle_memory env =
     (case virtual_memory env of
        Inl e \<Rightarrow> (False, [], (ascii ''Error getting memory usage: '') @ str_exn e)
      | Inr memory \<Rightarrow>
          (True,
           Fore_YELLOW @ (ascii ''Memory Usage: '') @ vm_percent memory @ (ascii ''%'') @ Style_RESET_ALL @ nl @
           Fore_YELLOW @ (ascii ''Total: '') @ format_bytes (vm_total memory) @
           (ascii '' | Available: '') @ format_bytes (vm_available memory) @
           (ascii '' | Used: '') @ format_bytes (vm_used memory) @ Style_RESET_ALL @ nl,
           []))"

text \<open>\<^verbatim>\<open>_handle_processes\<close> of terminal.py ends the note with a line feed:
  \<^verbatim>\<open>output += f"... and {total_count - 20} more processes\n"\<close>.\<close>

definition terminal_handle_processes :: "env \<Rightarrow> result" where
  "terminal_handle_processes env =
     (case collect_processes (process_iter env) 0 [] of
        Inl e \<Rightarrow> (False, [], (ascii ''Error getting process list: '') @ str_exn e)
      | Inr (total_count, processes) \<Rightarrow>
          (True,
           processes_header total_count @
           concat (map process_line (take 20 (sort_key fst processes))) @
           (if 20 < total_count then more_processes total_count @ nl else []),
           []))"

definition terminal_handle_help :: "env \<Rightarrow> result" where
  "terminal_handle_help env =
     (let ai_status = (if AI_ENABLED env then Fore_GREEN @ (ascii ''Enabled'') @ Style_RESET_ALL
                       else Fore_RED @ (ascii ''Disabled'') @ Style_RESET_ALL)
      in (True,
          join nl
            [Fore_BLUE @ (ascii ''Available Commands:'') @ Style_RESET_ALL,
             Fore_CYAN @ (ascii ''ls <dir>'') @ Style_RESET_ALL @ (ascii ''     - List files and directories in the current folder''),
             Fore_CYAN @ (ascii ''cd <dir>'') @ Style_RESET_ALL @ (ascii ''     - Change the current working directory''),
             Fore_CYAN @ (ascii ''pwd'') @ Style_RESET_ALL @ (ascii ''          - Print the current working directory''),
             Fore_CYAN @ (ascii ''mkdir <dir>'') @ Style_RESET_ALL @ (ascii ''  - Create a new directory''),
             Fore_CYAN @ (ascii ''rm <file>'') @ Style_RESET_ALL @ (ascii ''    - Remove a file''),
             Fore_CYAN @ (ascii ''cat <file>'') @ Style_RESET_ALL @ (ascii ''   - Display the contents of a file''),
             Fore_CYAN @ (ascii ''cpu'') @ Style_RESET_ALL @ (ascii ''          - Show CPU usage percentage''),
             Fore_CYAN @ (ascii ''mem/memory'') @ Style_RESET_ALL @ (ascii ''   - Show Memory usage statistics''),
             Fore_CYAN @ (ascii ''processes/ps'') @ Style_RESET_ALL @ (ascii '' - List running processes''),
             Fore_CYAN @ (ascii ''clear'') @ Style_RESET_ALL @ (ascii ''        - Clear the terminal screen''),
             Fore_CYAN @ (ascii ''help'') @ Style_RESET_ALL @ (ascii ''         - Show this help message''),
             Fore_CYAN @ (ascii ''tellmeabout_developer'') @ Style_RESET_ALL @ (ascii '' - Show developer information''),
             Fore_CYAN @ (ascii ''exit/quit'') @ Style_RESET_ALL @ (ascii ''    - Exit the terminal''),
             [],
             Fore_MAGENTA @ (ascii ''AI Features:'') @ Style_RESET_ALL,
             Fore_CYAN @ (ascii ''Natural Language'') @ Style_RESET_ALL @ (ascii '' - Type natural language commands (3+ words)''),
             Fore_CYAN @ (ascii ''AI Status:'') @ Style_RESET_ALL @ (ascii '' '') @ ai_status,
             [],
             Fore_YELLOW @ (ascii ''Note: External system commands are also supported through subprocess.'') @ Style_RESET_ALL,
             [],
             Fore_LIGHTBLUE_EX @ (ascii ''designed by Abhinav'') @ Style_RESET_ALL] @ nl,
          []))"

definition terminal_handle_developer_info :: result where
  "terminal_handle_developer_info =
     (True,
      join nl
        [[],
         Fore_CYAN @ (ascii ''+==============================================================+'') @ Style_RESET_ALL,
         Fore_CYAN @ (ascii ''|                    '') @ Style_BRIGHT @ (ascii ''DEVELOPER INFORMATION'') @ Style_RESET_ALL @ Fore_CYAN @ (ascii ''                    |'') @ Style_RESET_ALL,
         Fore_CYAN @ (ascii ''+==============================================================+'') @ Style_RESET_ALL,
         Fore_CYAN @ (ascii ''|'') @ Style_RESET_ALL @ (ascii ''                                                              '') @ Fore_CYAN @ (ascii ''|'') @ Style_RESET_ALL,
         Fore_CYAN @ (ascii ''|'') @ Style_RESET_ALL @ (ascii ''  '') @ Fore_GREEN @ (ascii ''Name:'') @ Style_RESET_ALL @ (ascii ''    Abhinav Singh (RA2211033010203)                    '') @ Fore_CYAN @ (ascii ''|'') @ Style_RESET_ALL,
         Fore_CYAN @ (ascii ''|'') @ Style_RESET_ALL @ (ascii ''                                                              '') @ Fore_CYAN @ (ascii ''|'') @ Style_RESET_ALL,
         Fore_CYAN @ (ascii ''|'') @ Style_RESET_ALL @ (ascii ''  '') @ Fore_GREEN @ (ascii ''College:'') @ Style_RESET_ALL @ (ascii '' SRM Institute of Science and Technology          '') @ Fore_CYAN @ (ascii ''|'') @ Style_RESET_ALL,
         Fore_CYAN @ (ascii ''|'') @ Style_RESET_ALL @ (ascii ''                                                              '') @ Fore_CYAN @ (ascii ''|'') @ Style_RESET_ALL,
         Fore_CYAN @ (ascii ''|'') @ Style_RESET_ALL @ (ascii ''  '') @ Fore_GREEN @ (ascii ''Course:'') @ Style_RESET_ALL @ (ascii ''  B.Tech Computer Science Engineering with        '') @ Fore_CYAN @ (ascii ''|'') @ Style_RESET_ALL,
         Fore_CYAN @ (ascii ''|'') @ Style_RESET_ALL @ (ascii ''            specialization in Software Engineering              '') @ Fore_CYAN @ (ascii ''|'') @ Style_RESET_ALL,
         Fore_CYAN @ (ascii ''|'') @ Style_RESET_ALL @ (ascii ''                                                              '') @ Fore_CYAN @ (ascii ''|'') @ Style_RESET_ALL,
         Fore_CYAN @ (ascii ''+==============================================================+'') @ Style_RESET_ALL,
         [],
         Fore_LIGHTBLUE_EX @ (ascii ''Thank you for using PyTerminal!'') @ Style_RESET_ALL,
         []],
      [])"

text \<open>
  \<^verbatim>\<open>interpret_natural_language\<close> of terminal.py tells the exceptions of the service apart:
  \<^verbatim>\<open>
  except openai.error.AuthenticationError: ... "AI Error: Invalid API key. Please check your OPENAI_API_KEY."
  except openai.error.RateLimitError: ... "AI Error: Rate limit exceeded. Please try again in a moment."
  except openai.error.APIConnectionError: ... "AI Error: Unable to connect to OpenAI service. Check your internet connection."
  except openai.error.APIError as e: ... f"AI Error: OpenAI API error - {str(e)}"
  except openai.error.InvalidRequestError as e: ... f"AI Error: Invalid request - {str(e)}"
  except openai.error.Timeout: ... "AI Error: Request timed out. Please try again."
  except ConnectionError: ... "AI Error: Network connection failed. Please check your internet connection."
  except Exception as e: ... f"AI Error: Unexpected error occurred - {str(e)}"
  \<close>
  each message between \<^verbatim>\<open>Fore.RED\<close> and \<^verbatim>\<open>Style.RESET_ALL\<close>.
\<close>

fun ai_except :: "exn \<Rightarrow> str" where
  "ai_except (AuthenticationError m) =
     (ascii ''AI Error: Invalid API key. Please check your OPENAI_API_KEY.'')"
| "ai_except (RateLimitError m) =
     (ascii ''AI Error: Rate limit exceeded. Please try again in a moment.'')"
| "ai_except (APIConnectionError m) =
     (ascii ''AI Error: Unable to connect to OpenAI service. Check your internet connection.'')"
| "ai_except (APIError m) = (ascii ''AI Error: OpenAI API error - '') @ m"
| "ai_except (InvalidRequestError m) = (ascii ''AI Error: Invalid request - '') @ m"
| "ai_except (Timeout m) = (ascii ''AI Error: Request timed out. Please try again.'')"
| "ai_except (ConnectionError m) =
     (ascii ''AI Error: Network connection failed. Please check your internet connection.'')"
| "ai_except e = (ascii ''AI Error: Unexpected error occurred - '') @ str_exn e"

definition terminal_interpret_natural_language ::
  "nat \<Rightarrow> env \<Rightarrow> world \<Rightarrow> str \<Rightarrow> (bool \<times> str \<times> str \<times> str) \<times> world" where
  "terminal_interpret_natural_language depth env w user_input =
     (if \<not> AI_ENABLED env
      then ((False, [], [],
             Fore_RED @
             (ascii ''AI features are disabled. Please set OPENAI_API_KEY environment variable.'') @
             Style_RESET_ALL), w)
      else case service_call depth env user_input of
             Inl e \<Rightarrow>
               ((False, [], [], Fore_RED @ ai_except e @ Style_RESET_ALL),
                w\<lparr>calls := calls w @ [Translate user_input]\<rparr>)
           | Inr content \<Rightarrow>
               if strip content \<noteq> []
               then ((True, strip content,
                      (ascii ''AI converted: '') @ quoted user_input @ (ascii '' to terminal command''), []),
                     w\<lparr>calls := calls w @ [Translate user_input]\<rparr>)
               else ((False, [], [],
                      Fore_RED @ (ascii ''AI could not generate a valid command.'') @ Style_RESET_ALL),
                     w\<lparr>calls := calls w @ [Translate user_input]\<rparr>))"

section \<open>The dispatcher of terminal.py\<close>

text \<open>
  The chain of \<^verbatim>\<open>run_command\<close> in terminal.py goes from \<^verbatim>\<open>pwd\<close> to
  \<^verbatim>\<open>tellmeabout_developer\<close> and then to the final \<^verbatim>\<open>else\<close>; it has no branch for
  \<^verbatim>\<open>clear\<close> or \<^verbatim>\<open>history\<close>.
\<close>

definition terminal_native ::
  "env \<Rightarrow> world \<Rightarrow> str \<Rightarrow> str \<Rightarrow> str list \<Rightarrow> result \<times> world" where
  "terminal_native env w command cmd args =
     (if cmd = (ascii ''pwd'') then (terminal_handle_pwd w, w)
      else if cmd = (ascii ''ls'') then (terminal_handle_ls w args, w)
      else if cmd = (ascii ''cd'') then terminal_handle_cd_robust env w args
      else if cmd = (ascii ''mkdir'') then terminal_handle_mkdir_robust w args
      else if cmd = (ascii ''rm'') then terminal_handle_rm_robust w args
      else if cmd = (ascii ''cat'') then (terminal_handle_cat_robust env w args, w)
      else if cmd = (ascii ''cpu'') then (terminal_handle_cpu env, w)
      else if cmd \<in> set [(ascii ''mem''), (ascii ''memory'')] then (terminal_handle_memory env, w)
      else if cmd \<in> set [(ascii ''processes''), (ascii ''ps'')] then (terminal_handle_processes env, w)
      else if cmd = (ascii ''help'') then (terminal_handle_help env, w)
      else if cmd = (ascii ''tellmeabout_developer'') then (terminal_handle_developer_info, w)
      else handle_external_command env w command)"

text \<open>
  \<^verbatim>\<open>_handle_ai_command\<close> of terminal.py prints the suggestion before it runs it:
  \<^verbatim>\<open>
  if command:
      print(f"{Fore.CYAN}AI Suggestion: {command}{Style.RESET_ALL}")
      if explanation:
          print(f"{Fore.YELLOW}Explanation: {explanation}{Style.RESET_ALL}")
      print()
      return run_command(command)
  else:
      return False, "", f"{Fore.RED}AI could not generate a valid command.{Style.RESET_ALL}"
  \<close>
\<close>

definition print_suggestion :: "world \<Rightarrow> str \<Rightarrow> str \<Rightarrow> world" where
  "print_suggestion w command explanation =
     w\<lparr>stdout := stdout w @
          [Fore_CYAN @ (ascii ''AI Suggestion: '') @ command @ Style_RESET_ALL] @
          (if explanation \<noteq> [] then [Fore_YELLOW @ (ascii ''Explanation: '') @ explanation @ Style_RESET_ALL]
           else []) @
          [[]]\<rparr>"

function terminal_run_command :: "nat \<Rightarrow> env \<Rightarrow> world \<Rightarrow> str \<Rightarrow> result \<times> world"
  and terminal_handle_ai_command :: "nat \<Rightarrow> env \<Rightarrow> world \<Rightarrow> str \<Rightarrow> result \<times> world"
  where
  "terminal_run_command depth env w command =
     (case split (strip command) of
        [] \<Rightarrow> ((False, [], (ascii ''Empty command'')), w)
      | part # args \<Rightarrow>
          if 2 < length (part # args) \<and> lower env part \<notin> set reserved_words \<and> AI_ENABLED env
          then terminal_handle_ai_command depth env w command
          else if list_ex (\<lambda>pattern. contains pattern (lower env command))
                    natural_language_patterns
                  \<and> AI_ENABLED env
          then terminal_handle_ai_command depth env w command
          else terminal_native env w command (lower env part) args)"
| "terminal_handle_ai_command depth env w natural_language_input =
     (let r = terminal_interpret_natural_language depth env w natural_language_input
      in if \<not> fst (fst r) then ((False, [], snd (snd (snd (fst r)))), snd r)
         else if fst (snd (fst r)) \<noteq> []
         then terminal_run_command (depth - 1) env
                (print_suggestion (snd r) (fst (snd (fst r))) (fst (snd (snd (fst r)))))
                (fst (snd (fst r)))
         else ((False, [], Fore_RED @ (ascii ''AI could not generate a valid command.'') @
                             Style_RESET_ALL), snd r))"
  by pat_completeness auto

lemma terminal_interpret_success_depth:
  "fst (fst (terminal_interpret_natural_language depth env w user_input)) \<Longrightarrow> 0 < depth"
  by (cases depth)
    (simp_all add: terminal_interpret_natural_language_def service_call_def split: if_splits)

termination terminal_run_command
proof (relation "measure (\<lambda>x. case x of Inl (depth, env, w, c) \<Rightarrow> 2 * depth + 1
                                       | Inr (depth, env, w, c) \<Rightarrow> 2 * depth)")
  show "wf (measure (\<lambda>x. case x of Inl (depth, env, w, c) \<Rightarrow> 2 * depth + 1
                                  | Inr (depth, env, w, c) \<Rightarrow> 2 * depth))"
    by simp
next
  fix depth :: nat and env :: env and w :: world and command :: str and x21 :: str
    and x22 :: "str list"
  show "(Inr (depth, env, w, command), Inl (depth, env, w, command))
          \<in> measure (\<lambda>x. case x of Inl (depth, env, w, c) \<Rightarrow> 2 * depth + 1
                                  | Inr (depth, env, w, c) \<Rightarrow> 2 * depth)"
    by simp
next
  fix depth :: nat and env :: env and w :: world and command :: str and x21 :: str
    and x22 :: "str list"
  show "(Inr (depth, env, w, command), Inl (depth, env, w, command))
          \<in> measure (\<lambda>x. case x of Inl (depth, env, w, c) \<Rightarrow> 2 * depth + 1
                                  | Inr (depth, env, w, c) \<Rightarrow> 2 * depth)"
    by simp
next
  fix depth :: nat and env :: env and w :: world and natural_language_input :: str
    and x :: "(bool \<times> str \<times> str \<times> str) \<times> world"
  assume "x = terminal_interpret_natural_language depth env w natural_language_input"
    and "\<not> \<not> fst (fst x)"
  then have "0 < depth"
    using terminal_interpret_success_depth by blast
  then show "(Inl (depth - 1, env, print_suggestion (snd x) (fst (snd (fst x)))
                                     (fst (snd (snd (fst x)))), fst (snd (fst x))),
              Inr (depth, env, w, natural_language_input))
          \<in> measure (\<lambda>x. case x of Inl (depth, env, w, c) \<Rightarrow> 2 * depth + 1
                                  | Inr (depth, env, w, c) \<Rightarrow> 2 * depth)"
    by simp
qed

declare terminal_run_command.simps [simp del] terminal_handle_ai_command.simps [simp del]

section \<open>The loop of terminal.py\<close>

text \<open>
  One turn of the loop of \<^verbatim>\<open>main\<close>, on the line read from the prompt:
  \<^verbatim>\<open>
  if not user_input:
      continue
  if user_input.lower() in ['exit', 'quit', 'q']:
      print("Goodbye!")
      break
  if user_input.lower() == 'clear':
      os.system('cls' if os.name == 'nt' else 'clear')
      print(Fore.CYAN + "=" * 60)
      ...
      continue
  success, output, error = run_command(user_input)
  if success:
      if output: print(output, end="")
      if error: print(f"{Fore.YELLOW}Warning: {error}{Style.RESET_ALL}", end="")
  else:
      if error: print(f"{Fore.RED}Error: {error}{Style.RESET_ALL}", end="")
      if output: print(f"Output: {output}", end="")
  ...
  except Exception as e:
      print(f"\nUnexpected error: {str(e)}")
      continue
  \<close>
  The result says whether the loop goes on. \<open>stdout\<close> collects the texts printed; the
  system is taken to be POSIX.
\<close>

definition print_header :: "world \<Rightarrow> world" where
  "print_header w =
     w\<lparr>stdout := stdout w @
          [Fore_CYAN @ replicate 60 (of_char CHR ''=''),
           Fore_CYAN @ Style_BRIGHT @ (ascii ''            PyTerminal (Python Powered)''),
           Fore_LIGHTBLUE_EX @ (ascii ''                designed by Abhinav''),
           Fore_YELLOW @ (ascii ''Type '') @ quoted (ascii ''help'') @ (ascii '' for available commands.''),
           Fore_CYAN @ replicate 60 (of_char CHR ''='')]\<rparr>"

definition print_result :: "world \<Rightarrow> result \<Rightarrow> world" where
  "print_result w r =
     (case r of
        (succ, out, err) \<Rightarrow>
          w\<lparr>stdout := stdout w @
               (if succ
                then (if out \<noteq> [] then [out] else []) @
                     (if err \<noteq> [] then [Fore_YELLOW @ (ascii ''Warning: '') @ err @ Style_RESET_ALL]
                      else [])
                else (if err \<noteq> [] then [Fore_RED @ (ascii ''Error: '') @ err @ Style_RESET_ALL]
                      else []) @
                     (if out \<noteq> [] then [(ascii ''Output: '') @ out] else []))\<rparr>)"

definition terminal_main_step :: "env \<Rightarrow> world \<Rightarrow> str \<Rightarrow> bool \<times> world" where
  "terminal_main_step env w user_input =
     (if user_input = [] then (True, w)
      else if lower env user_input \<in> set [(ascii ''exit''), (ascii ''quit''), (ascii ''q'')]
      then (False, w\<lparr>stdout := stdout w @ [(ascii ''Goodbye!'')]\<rparr>)
      else if lower env user_input = (ascii ''clear'')
      then (True, print_header (w\<lparr>calls := calls w @ [System (ascii ''clear'')]\<rparr>))
      else case terminal_run_command (recursion_limit env) env w user_input of
             (r, w1) \<Rightarrow> (True, print_result w1 r))"

section \<open>Vocabulary of the properties\<close>

text \<open>The processes whose information could be read, in the order of the enumeration,
  and the enumerations in which every exception raised is one that the loop skips.\<close>

definition remaining :: "proc list \<Rightarrow> (nat \<times> str option) list" where
  "remaining procs = concat (map (\<lambda>p. case p of Inl e \<Rightarrow> [] | Inr info \<Rightarrow> [info]) procs)"

definition only_skipped :: "proc list \<Rightarrow> bool" where
  "only_skipped procs = list_all (\<lambda>p. case p of Inl e \<Rightarrow> skipped e | Inr info \<Rightarrow> True) procs"

text \<open>The directory from which the resolution of a path starts, and the names that
  denote an entry of the directory they are looked up in.\<close>

definition start_dir :: "world \<Rightarrow> str \<Rightarrow> path" where
  "start_dir w s = (if startswith s (ascii ''/'') then [] else cwd w)"





section \<open>An example environment and state\<close>

text \<open>
  A user whose home is \<^verbatim>\<open>/home/user\<close>, with two files, a directory and a directory that
  is closed to the user; a completion service that answers \<^verbatim>\<open>what is b\<close> to \<^verbatim>\<open>show me a\<close>
  and \<^verbatim>\<open>pwd\<close> to anything else; a shell in which every command succeeds silently.
\<close>

definition env0 :: env where
  "env0 = \<lparr>AI_ENABLED = True,
     ChatCompletion_create = (\<lambda>s. if s = (ascii ''show me a'') then Inr (ascii ''what is b'') else Inr (ascii ''pwd'')),
     subprocess_run = (\<lambda>c w. (Inr (CompletedProcess 0 [] []), fs w)),
     HOME = Some (ascii ''/home/user''),
     getpwuid_dir = Some (ascii ''/home/user''),
     pw_dir = (\<lambda>u. None),
     cpu_percent = Inr (ascii ''12.5''),
     virtual_memory = Inr \<lparr>vm_total = 8000000000, vm_available = 3000000000,
                            vm_used = 5000000000, vm_percent = (ascii ''62.5'')\<rparr>,
     process_iter = [Inr (7, Some (ascii ''sh'')), Inr (2, None), Inr (1, Some (ascii ''init''))],
     uuid4 = (\<lambda>n. (ascii ''session-'') @ str_nat n),
     datetime_now = (ascii ''2024-01-01T00:00:00''),
     recursion_limit = 300,
     RecursionError_text = (ascii ''maximum recursion depth exceeded''),
     unicode_lower = (\<lambda>s i. [s ! i]),
     decode_text = (\<lambda>b. b)\<rparr>"

definition w0 :: world where
  "w0 = \<lparr>fs = [([(ascii ''home'')], Dir True),
              ([(ascii ''home''), (ascii ''user'')], Dir True),
              ([(ascii ''home''), (ascii ''user''), (ascii ''notes.txt'')], File True (ascii ''hello'')),
              ([(ascii ''home''), (ascii ''user''), (ascii ''b.txt'')], File True (ascii ''bye'')),
              ([(ascii ''home''), (ascii ''user''), (ascii ''docs'')], Dir True),
              ([(ascii ''home''), (ascii ''user''), (ascii ''secret'')], Dir False)],
          cwd = [(ascii ''home''), (ascii ''user'')],
          stdout = [],
          session = None,
          command_history = Map.empty,
          uuid_count = 0,
          calls = []\<rparr>"

text \<open>The same state with a file in the place of the directory \<^verbatim>\<open>docs\<close>.\<close>

definition w0_file :: world where
  "w0_file =
     w0\<lparr>fs := ([(ascii ''home''), (ascii ''user''), (ascii ''docs'')], File True []) # fs w0\<rparr>"

section \<open>Properties of the history ledger\<close>

lemma session_after_get_session_id:
  "get_session_id env w = (sid, w1) \<Longrightarrow> session w1 = Some sid"
  by (auto simp: get_session_id_def Let_def split: option.splits)

lemma get_history_known_session:
  "session w = Some sid \<Longrightarrow>
   get_history env w = (case command_history w sid of None \<Rightarrow> [] | Some es \<Rightarrow> es, w)"
  by (simp add: get_history_def get_session_id_def)

lemma add_to_history_appends:
  "command_history (add_to_history env w sid cmd out succ) sid =
     Some ((case command_history w sid of None \<Rightarrow> [] | Some es \<Rightarrow> es) @
           [\<lparr>h_timestamp = datetime_now env, h_command = cmd, h_output = out, h_success = succ\<rparr>])"
  by (simp add: add_to_history_def Let_def split: option.splits)

lemma add_to_history_session:
  "session (add_to_history env w sid cmd out succ) = session w"
  by (simp add: add_to_history_def Let_def split: option.splits)

text \<open>
  Claim C8. Appending the entry of a dispatch to the ledger of a session, as
  \<^verbatim>\<open>execute_command\<close> does (\<^verbatim>\<open>get_session_id\<close>, then \<^verbatim>\<open>add_to_history\<close>), and retrieving
  the history of the same session right after returns the earlier entries of that
  session in their order followed by the new entry: the sequence is most-recent-last
  and its last element is exactly the entry just appended.
\<close>

theorem history_round_trip:
  "fst (get_history env
          (add_to_history env (snd (get_session_id env w)) (fst (get_session_id env w))
             cmd out succ)) =
     (case command_history w (fst (get_session_id env w)) of None \<Rightarrow> [] | Some es \<Rightarrow> es) @
     [\<lparr>h_timestamp = datetime_now env, h_command = cmd, h_output = out, h_success = succ\<rparr>]
   \<and> last (fst (get_history env
          (add_to_history env (snd (get_session_id env w)) (fst (get_session_id env w))
             cmd out succ))) =
     \<lparr>h_timestamp = datetime_now env, h_command = cmd, h_output = out, h_success = succ\<rparr>"
proof -
  obtain sid w1 where g: "get_session_id env w = (sid, w1)"
    by (cases "get_session_id env w")
  have s1: "session w1 = Some sid"
    using g by (rule session_after_get_session_id)
  have h1: "command_history w1 sid = command_history w sid"
    using g by (auto simp: get_session_id_def Let_def split: option.splits)
  have s2: "session (add_to_history env w1 sid cmd out succ) = Some sid"
    using s1 by (simp add: add_to_history_session)
  show ?thesis
    using g h1 by (simp add: get_history_known_session [OF s2] add_to_history_appends)
qed

section \<open>Properties of the process listing\<close>


lemma collect_processes_raises:
  "\<not> only_skipped procs \<Longrightarrow>
   \<exists>e. collect_processes procs total_count processes = Inl e \<and> \<not> skipped e"
proof (induction procs arbitrary: total_count processes)
  case Nil
  then show ?case by (simp add: only_skipped_def)
next
  case (Cons p procs)
  then show ?case
    by (cases p) (auto simp: only_skipped_def)
qed

lemma remaining_map_Inr: "remaining (map Inr infos) = infos"
  by (induction infos) (simp_all add: remaining_def)

lemma remaining_Cons_Inl: "remaining (Inl e # procs) = remaining procs"
  by (simp add: remaining_def)

lemma only_skipped_Cons_Inl: "only_skipped (Inl e # procs) = (skipped e \<and> only_skipped procs)"
  by (simp add: only_skipped_def)

lemma only_skipped_map_Inr: "only_skipped (map Inr infos)"
  by (induction infos) (simp_all add: only_skipped_def)




section \<open>Properties of the tokens\<close>

lemma split_from_Nil_iff: "split_from w s = [] \<longleftrightarrow> w = [] \<and> list_all isspace s"
  by (induction s arbitrary: w) auto

lemma in_dropWhile_isspace: "c \<in> set s \<Longrightarrow> \<not> isspace c \<Longrightarrow> c \<in> set (dropWhile isspace s)"
  by (induction s) auto

lemma in_strip: "c \<in> set s \<Longrightarrow> \<not> isspace c \<Longrightarrow> c \<in> set (strip s)"
  by (simp add: strip_def in_dropWhile_isspace)

lemma split_strip_not_Nil: "c \<in> set s \<Longrightarrow> \<not> isspace c \<Longrightarrow> split (strip s) \<noteq> []"
proof -
  assume "c \<in> set s" and "\<not> isspace c"
  then have "c \<in> set (strip s)"
    by (rule in_strip)
  with \<open>\<not> isspace c\<close> have "\<not> list_all isspace (strip s)"
    by (auto simp: list_all_iff)
  then show ?thesis
    by (simp add: split_def split_from_Nil_iff)
qed

lemma startswith_subset: "startswith s p \<Longrightarrow> set p \<subseteq> set s"
  by (induction s p rule: startswith.induct) auto

lemma contains_subset: "contains p s \<Longrightarrow> set p \<subseteq> set s"
proof (induction s)
  case Nil
  then show ?case by simp
next
  case (Cons a s)
  from Cons.prems have "startswith (a # s) p \<or> contains p s"
    by simp
  then show ?case
  proof
    assume "startswith (a # s) p"
    then show ?thesis by (rule startswith_subset)
  next
    assume "contains p s"
    then have "set p \<subseteq> set s" by (rule Cons.IH)
    then show ?thesis by auto
  qed
qed


lemma isspace_not_upper: "isspace c \<Longrightarrow> \<not> (0x41 \<le> c \<and> c \<le> 0x5A)"
proof -
  assume "isspace c"
  then have "c \<le> 0x20 \<or> 0x85 \<le> c"
    unfolding isspace_def by auto
  then show ?thesis
    by auto
qed

lemma lower_at_isspace: "isspace c \<Longrightarrow> lower_at env s i c = [c]"
  using isspace_not_upper [of c] by (simp add: lower_at_def)

lemma lower_from_has_letter:
  "x \<in> set (lower_from env s i cs) \<Longrightarrow> \<not> isspace x \<Longrightarrow> \<exists>c\<in>set cs. \<not> isspace c"
proof (induction cs arbitrary: i)
  case Nil
  then show ?case by simp
next
  case (Cons c cs)
  from Cons.prems(1) have "x \<in> set (lower_at env s i c) \<or> x \<in> set (lower_from env s (Suc i) cs)"
    by simp
  then show ?case
  proof
    assume a: "x \<in> set (lower_at env s i c)"
    have "\<not> isspace c"
    proof
      assume "isspace c"
      then have "lower_at env s i c = [c]" by (rule lower_at_isspace)
      with a Cons.prems(2) \<open>isspace c\<close> show False by simp
    qed
    then show ?thesis by simp
  next
    assume "x \<in> set (lower_from env s (Suc i) cs)"
    then have "\<exists>c\<in>set cs. \<not> isspace c"
      using Cons.prems(2) by (rule Cons.IH)
    then show ?thesis by auto
  qed
qed

lemma lower_has_letter:
  "x \<in> set (lower env s) \<Longrightarrow> \<not> isspace x \<Longrightarrow> \<exists>c\<in>set s. \<not> isspace c"
  unfolding lower_def by (rule lower_from_has_letter)

lemma pattern_has_letter:
  "p \<in> set natural_language_patterns \<Longrightarrow> \<exists>x\<in>set p. \<not> isspace x"
proof -
  assume "p \<in> set natural_language_patterns"
  then have "p = (ascii ''show me'') \<or> p = (ascii ''list all'') \<or> p = (ascii ''create a'') \<or>
             p = (ascii ''what is'') \<or> p = (ascii ''how to'') \<or> p = (ascii ''can you'')"
    by (simp add: natural_language_patterns_def)
  then show ?thesis
    by (elim disjE) (simp_all add: isspace_def ascii_def)
qed

lemma phrase_line_has_token:
  assumes "list_ex (\<lambda>pattern. contains pattern (lower env command)) natural_language_patterns"
  shows "split (strip command) \<noteq> []"
proof -
  from assms obtain p where p: "p \<in> set natural_language_patterns" "contains p (lower env command)"
    by (auto simp: list_ex_iff)
  from p(1) obtain x where x: "x \<in> set p" "\<not> isspace x"
    using pattern_has_letter by blast
  from p(2) x(1) have "x \<in> set (lower env command)"
    using contains_subset by blast
  with x(2) obtain c where "c \<in> set command" "\<not> isspace c"
    using lower_has_letter by blast
  then show ?thesis
    by (rule split_strip_not_Nil)
qed

section \<open>What the handlers leave unchanged\<close>

lemma os_chdir_frame: "os_chdir w s = Inr w1 \<Longrightarrow> w1 = w\<lparr>cwd := cwd w1\<rparr>"
  by (auto simp: os_chdir_def split: sum.splits option.splits node.splits if_splits)

lemma os_mkdir_frame: "os_mkdir w s = Inr w1 \<Longrightarrow> w1 = w\<lparr>fs := fs w1\<rparr>"
  by (auto simp: os_mkdir_def split: sum.splits option.splits node.splits if_splits)

lemma mkdir_raise_frame: "snd (mkdir_raise w s) = w\<lparr>fs := fs (snd (mkdir_raise w s))\<rparr>"
  by (auto simp: mkdir_raise_def dest: os_mkdir_frame split: sum.splits)

lemma os_remove_frame: "os_remove w s = Inr w1 \<Longrightarrow> w1 = w\<lparr>fs := fs w1\<rparr>"
  by (auto simp: os_remove_def split: sum.splits option.splits node.splits if_splits)

lemma os_makedirs_direct:
  "\<not> (fst (makedirs_head_tail name) \<noteq> [] \<and> snd (makedirs_head_tail name) \<noteq> [] \<and>
      \<not> os_path_exists w (fst (makedirs_head_tail name))) \<Longrightarrow>
   os_makedirs w name = mkdir_raise w name"
  by (subst os_makedirs.simps) auto

lemma os_makedirs_nested:
  "fst (makedirs_head_tail name) \<noteq> [] \<Longrightarrow> snd (makedirs_head_tail name) \<noteq> [] \<Longrightarrow>
   \<not> os_path_exists w (fst (makedirs_head_tail name)) \<Longrightarrow>
   os_makedirs w (fst (makedirs_head_tail name)) = (r, w1) \<Longrightarrow>
   os_makedirs w name =
     (if (case r of None \<Rightarrow> False | Some e \<Rightarrow> \<not> is_FileExistsError e) then (r, w1)
      else if snd (makedirs_head_tail name) = (ascii ''.'') then (None, w1)
      else mkdir_raise w1 name)"
  by (subst os_makedirs.simps) simp


lemma os_makedirs_frame: "snd (os_makedirs w name) = w\<lparr>fs := fs (snd (os_makedirs w name))\<rparr>"
proof (induction w name rule: os_makedirs.induct)
  case (1 w name)
  show ?case
  proof (cases "fst (makedirs_head_tail name) \<noteq> [] \<and> snd (makedirs_head_tail name) \<noteq> [] \<and>
                \<not> os_path_exists w (fst (makedirs_head_tail name))")
    case False
    then have "os_makedirs w name = mkdir_raise w name"
      by (rule os_makedirs_direct)
    then show ?thesis
      using mkdir_raise_frame [of w name] by simp
  next
    case True
    obtain r w1 where h: "os_makedirs w (fst (makedirs_head_tail name)) = (r, w1)"
      by (cases "os_makedirs w (fst (makedirs_head_tail name))")
    from "1.IH" True h have w1: "w1 = w\<lparr>fs := fs w1\<rparr>"
      by simp
    have m: "snd (mkdir_raise w1 name) = w1\<lparr>fs := fs (snd (mkdir_raise w1 name))\<rparr>"
      by (rule mkdir_raise_frame)
    have "snd (os_makedirs w name) = w1 \<or> snd (os_makedirs w name) = snd (mkdir_raise w1 name)"
      using True h by (simp add: os_makedirs_nested)
    then show ?thesis
    proof
      assume "snd (os_makedirs w name) = w1"
      with w1 show ?thesis by simp
    next
      assume e: "snd (os_makedirs w name) = snd (mkdir_raise w1 name)"
      have "w1\<lparr>fs := fs (snd (mkdir_raise w1 name))\<rparr> = w\<lparr>fs := fs (snd (mkdir_raise w1 name))\<rparr>"
        by (subst w1) simp
      with m e show ?thesis by simp
    qed
  qed
qed

lemma get_session_id_frame:
  "snd (get_session_id env w) =
     w\<lparr>session := session (snd (get_session_id env w)),
       uuid_count := uuid_count (snd (get_session_id env w))\<rparr>"
  by (simp add: get_session_id_def Let_def split: option.splits)


lemma cd_try_frame: "cd_try env w a = Inr w1 \<Longrightarrow> w1 = w\<lparr>cwd := cwd w1\<rparr>"
  by (auto simp: cd_try_def dest: os_chdir_frame split: if_splits)

lemma app_handle_cd_robust_frame:
  "snd (app_handle_cd_robust env w args) = w\<lparr>cwd := cwd (snd (app_handle_cd_robust env w args))\<rparr>"
  by (auto simp: app_handle_cd_robust_def dest: cd_try_frame split: list.splits sum.splits)

lemma terminal_handle_cd_robust_frame:
  "snd (terminal_handle_cd_robust env w args) =
     w\<lparr>cwd := cwd (snd (terminal_handle_cd_robust env w args))\<rparr>"
  by (auto simp: terminal_handle_cd_robust_def dest: cd_try_frame split: list.splits sum.splits)

lemma app_handle_mkdir_robust_frame:
  "snd (app_handle_mkdir_robust w args) = w\<lparr>fs := fs (snd (app_handle_mkdir_robust w args))\<rparr>"
proof (cases args)
  case Nil
  then show ?thesis by (simp add: app_handle_mkdir_robust_def)
next
  case (Cons a rest)
  have "snd (app_handle_mkdir_robust w (a # rest)) = snd (os_makedirs w a)"
    by (simp add: app_handle_mkdir_robust_def split: prod.splits option.splits)
  with Cons show ?thesis
    using os_makedirs_frame [of w a] by simp
qed

lemma terminal_handle_mkdir_robust_frame:
  "snd (terminal_handle_mkdir_robust w args) =
     w\<lparr>fs := fs (snd (terminal_handle_mkdir_robust w args))\<rparr>"
proof (cases args)
  case Nil
  then show ?thesis by (simp add: terminal_handle_mkdir_robust_def)
next
  case (Cons a rest)
  have "snd (terminal_handle_mkdir_robust w (a # rest)) = snd (os_makedirs w a)"
    by (simp add: terminal_handle_mkdir_robust_def split: prod.splits option.splits)
  with Cons show ?thesis
    using os_makedirs_frame [of w a] by simp
qed

lemma app_handle_rm_robust_frame:
  "snd (app_handle_rm_robust w args) = w\<lparr>fs := fs (snd (app_handle_rm_robust w args))\<rparr>"
  by (auto simp: app_handle_rm_robust_def dest: os_remove_frame split: list.splits sum.splits)

lemma terminal_handle_rm_robust_frame:
  "snd (terminal_handle_rm_robust w args) =
     w\<lparr>fs := fs (snd (terminal_handle_rm_robust w args))\<rparr>"
  by (auto simp: terminal_handle_rm_robust_def dest: os_remove_frame split: list.splits sum.splits)

lemma app_handle_history_frame:
  "snd (app_handle_history env w) =
     w\<lparr>session := session (snd (app_handle_history env w)),
       uuid_count := uuid_count (snd (app_handle_history env w))\<rparr>"
proof -
  have "snd (app_handle_history env w) = snd (get_session_id env w)"
    by (simp add: app_handle_history_def Let_def split: prod.splits option.splits)
  then show ?thesis
    using get_session_id_frame [of env w] by simp
qed

lemma handle_external_command_calls:
  "calls (snd (handle_external_command env w command)) = calls w @ [Subprocess command]"
  by (simp add: handle_external_command_def)

lemma handle_external_command_history:
  "command_history (snd (handle_external_command env w command)) = command_history w"
  by (simp add: handle_external_command_def)

lemma app_native_history:
  "command_history (snd (app_native env w command cmd args)) = command_history w"
proof -
  have cd: "command_history (snd (app_handle_cd_robust env w args)) = command_history w"
    by (subst app_handle_cd_robust_frame) simp
  have mk: "command_history (snd (app_handle_mkdir_robust w args)) = command_history w"
    by (subst app_handle_mkdir_robust_frame) simp
  have rm: "command_history (snd (app_handle_rm_robust w args)) = command_history w"
    by (subst app_handle_rm_robust_frame) simp
  have hi: "command_history (snd (app_handle_history env w)) = command_history w"
    by (subst app_handle_history_frame) simp
  show ?thesis
    by (simp add: app_native_def cd mk rm hi handle_external_command_history)
qed

lemma app_native_calls:
  "cmd \<in> set reserved_words \<Longrightarrow> calls (snd (app_native env w command cmd args)) = calls w"
proof -
  assume r: "cmd \<in> set reserved_words"
  have cd: "calls (snd (app_handle_cd_robust env w args)) = calls w"
    by (subst app_handle_cd_robust_frame) simp
  have mk: "calls (snd (app_handle_mkdir_robust w args)) = calls w"
    by (subst app_handle_mkdir_robust_frame) simp
  have rm: "calls (snd (app_handle_rm_robust w args)) = calls w"
    by (subst app_handle_rm_robust_frame) simp
  from r show ?thesis
    by (auto simp: app_native_def reserved_words_def cd mk rm)
qed

lemma terminal_native_calls:
  "cmd \<in> set reserved_words \<Longrightarrow> cmd \<noteq> (ascii ''clear'') \<Longrightarrow>
   calls (snd (terminal_native env w command cmd args)) = calls w"
proof -
  assume r: "cmd \<in> set reserved_words" and c: "cmd \<noteq> (ascii ''clear'')"
  have cd: "calls (snd (terminal_handle_cd_robust env w args)) = calls w"
    by (subst terminal_handle_cd_robust_frame) simp
  have mk: "calls (snd (terminal_handle_mkdir_robust w args)) = calls w"
    by (subst terminal_handle_mkdir_robust_frame) simp
  have rm: "calls (snd (terminal_handle_rm_robust w args)) = calls w"
    by (subst terminal_handle_rm_robust_frame) simp
  from r c show ?thesis
    by (auto simp: terminal_native_def reserved_words_def cd mk rm)
qed

section \<open>Properties of the dispatcher\<close>

lemma app_interpret_calls:
  "calls (snd (app_interpret_natural_language depth env w c)) =
     (if AI_ENABLED env then calls w @ [Translate c] else calls w)"
  by (simp add: app_interpret_natural_language_def split: sum.splits)

lemma terminal_interpret_calls:
  "calls (snd (terminal_interpret_natural_language depth env w c)) =
     (if AI_ENABLED env then calls w @ [Translate c] else calls w)"
  by (simp add: terminal_interpret_natural_language_def split: sum.splits)

lemma app_native_calls_extend:
  "\<exists>rest. calls (snd (app_native env w command cmd args)) = calls w @ rest"
proof -
  have cd: "calls (snd (app_handle_cd_robust env w args)) = calls w"
    by (subst app_handle_cd_robust_frame) simp
  have mk: "calls (snd (app_handle_mkdir_robust w args)) = calls w"
    by (subst app_handle_mkdir_robust_frame) simp
  have rm: "calls (snd (app_handle_rm_robust w args)) = calls w"
    by (subst app_handle_rm_robust_frame) simp
  have hi: "calls (snd (app_handle_history env w)) = calls w"
    by (subst app_handle_history_frame) simp
  show ?thesis
    by (simp add: app_native_def cd mk rm hi handle_external_command_calls)
qed

lemma terminal_native_calls_extend:
  "\<exists>rest. calls (snd (terminal_native env w command cmd args)) = calls w @ rest"
proof -
  have cd: "calls (snd (terminal_handle_cd_robust env w args)) = calls w"
    by (subst terminal_handle_cd_robust_frame) simp
  have mk: "calls (snd (terminal_handle_mkdir_robust w args)) = calls w"
    by (subst terminal_handle_mkdir_robust_frame) simp
  have rm: "calls (snd (terminal_handle_rm_robust w args)) = calls w"
    by (subst terminal_handle_rm_robust_frame) simp
  show ?thesis
    by (simp add: terminal_native_def cd mk rm handle_external_command_calls)
qed


lemma app_run_command_empty:
  "split (strip command) = [] \<Longrightarrow>
   app_run_command depth env w command = ((False, [], (ascii ''Empty command'')), w)"
  by (simp add: app_run_command.simps)

lemma app_run_command_ai:
  "split (strip command) = part # args \<Longrightarrow>
   (2 < length (part # args) \<and> lower env part \<notin> set reserved_words \<or>
    list_ex (\<lambda>pattern. contains pattern (lower env command)) natural_language_patterns) \<Longrightarrow>
   AI_ENABLED env \<Longrightarrow>
   app_run_command depth env w command = app_handle_ai_command depth env w command"
  by (auto simp: app_run_command.simps)

lemma app_run_command_native:
  "split (strip command) = part # args \<Longrightarrow>
   \<not> ((2 < length (part # args) \<and> lower env part \<notin> set reserved_words \<or>
       list_ex (\<lambda>pattern. contains pattern (lower env command)) natural_language_patterns) \<and>
      AI_ENABLED env) \<Longrightarrow>
   app_run_command depth env w command = app_native env w command (lower env part) args"
  by (auto simp: app_run_command.simps)

lemma app_calls_extend:
  "\<exists>rest. calls (snd (app_run_command depth env w c)) = calls w @ rest"
  "\<exists>rest. calls (snd (app_handle_ai_command depth env w c)) = calls w @ rest"
proof (induction depth env w c and depth env w c rule: app_run_command_app_handle_ai_command.induct)
  case (1 depth env w command)
  show ?case
  proof (cases "split (strip command)")
    case Nil
    then show ?thesis
      by (simp add: app_run_command_empty)
  next
    case (Cons part args)
    show ?thesis
    proof (cases "2 < length (part # args) \<and> lower env part \<notin> set reserved_words \<and> AI_ENABLED env")
      case True
      with Cons have "app_run_command depth env w command = app_handle_ai_command depth env w command"
        by (simp add: app_run_command_ai)
      with "1.IH"(1) [OF Cons True] show ?thesis
        by simp
    next
      case False
      note f = False
      show ?thesis
      proof (cases "list_ex (\<lambda>pattern. contains pattern (lower env command))
                      natural_language_patterns \<and> AI_ENABLED env")
        case True
        with Cons have "app_run_command depth env w command = app_handle_ai_command depth env w command"
          by (simp add: app_run_command_ai)
        with "1.IH"(2) [OF Cons f True] show ?thesis
          by simp
      next
        case False
        with Cons f have "app_run_command depth env w command =
                            app_native env w command (lower env part) args"
          by (intro app_run_command_native) auto
        then show ?thesis
          using app_native_calls_extend [of env w command "lower env part" args] by simp
      qed
    qed
  qed
next
  case (2 depth env w natural_language_input)
  define r where "r = app_interpret_natural_language depth env w natural_language_input"
  have c: "\<exists>rest. calls (snd r) = calls w @ rest"
    unfolding r_def by (simp add: app_interpret_calls)
  show ?case
  proof (cases "fst (fst r) \<and> fst (snd (fst r)) \<noteq> []")
    case True
    then have "\<exists>rest. calls (snd (app_run_command (depth - 1) env (snd r) (fst (snd (fst r))))) =
                 calls (snd r) @ rest"
      using "2.IH" [OF r_def] by simp
    with c have "\<exists>rest. calls (snd (app_run_command (depth - 1) env (snd r) (fst (snd (fst r))))) =
                 calls w @ rest"
      by (auto simp: print_suggestion_def)
    with True show ?thesis
      by (simp add: app_handle_ai_command.simps r_def [symmetric] Let_def)
  next
    case False
    with c show ?thesis
      by (auto simp: app_handle_ai_command.simps r_def [symmetric] Let_def)
  qed
qed

lemma app_ai_calls:
  assumes "AI_ENABLED env"
  shows "\<exists>rest. calls (snd (app_handle_ai_command depth env w c)) = calls w @ Translate c # rest"
proof -
  define r where "r = app_interpret_natural_language depth env w c"
  have c: "calls (snd r) = calls w @ [Translate c]"
    unfolding r_def using assms by (simp add: app_interpret_calls)
  show ?thesis
  proof (cases "fst (fst r) \<and> fst (snd (fst r)) \<noteq> []")
    case True
    obtain rest where "calls (snd (app_run_command (depth - 1) env (snd r) (fst (snd (fst r))))) =
                 calls (snd r) @ rest"
      using app_calls_extend(1) by blast
    with c have "calls (snd (app_run_command (depth - 1) env (snd r) (fst (snd (fst r))))) =
                 calls w @ Translate c # rest"
      by (simp add: print_suggestion_def)
    with True show ?thesis
      by (simp add: app_handle_ai_command.simps r_def [symmetric] Let_def)
  next
    case False
    with c show ?thesis
      by (auto simp: app_handle_ai_command.simps r_def [symmetric] Let_def)
  qed
qed

lemma terminal_run_command_empty:
  "split (strip command) = [] \<Longrightarrow>
   terminal_run_command depth env w command = ((False, [], (ascii ''Empty command'')), w)"
  by (simp add: terminal_run_command.simps)

lemma terminal_run_command_ai:
  "split (strip command) = part # args \<Longrightarrow>
   (2 < length (part # args) \<and> lower env part \<notin> set reserved_words \<or>
    list_ex (\<lambda>pattern. contains pattern (lower env command)) natural_language_patterns) \<Longrightarrow>
   AI_ENABLED env \<Longrightarrow>
   terminal_run_command depth env w command = terminal_handle_ai_command depth env w command"
  by (auto simp: terminal_run_command.simps)

lemma terminal_run_command_native:
  "split (strip command) = part # args \<Longrightarrow>
   \<not> ((2 < length (part # args) \<and> lower env part \<notin> set reserved_words \<or>
       list_ex (\<lambda>pattern. contains pattern (lower env command)) natural_language_patterns) \<and>
      AI_ENABLED env) \<Longrightarrow>
   terminal_run_command depth env w command = terminal_native env w command (lower env part) args"
  by (auto simp: terminal_run_command.simps)

lemma terminal_calls_extend:
  "\<exists>rest. calls (snd (terminal_run_command depth env w c)) = calls w @ rest"
  "\<exists>rest. calls (snd (terminal_handle_ai_command depth env w c)) = calls w @ rest"
proof (induction depth env w c and depth env w c rule: terminal_run_command_terminal_handle_ai_command.induct)
  case (1 depth env w command)
  show ?case
  proof (cases "split (strip command)")
    case Nil
    then show ?thesis
      by (simp add: terminal_run_command_empty)
  next
    case (Cons part args)
    show ?thesis
    proof (cases "2 < length (part # args) \<and> lower env part \<notin> set reserved_words \<and> AI_ENABLED env")
      case True
      with Cons have "terminal_run_command depth env w command = terminal_handle_ai_command depth env w command"
        by (simp add: terminal_run_command_ai)
      with "1.IH"(1) [OF Cons True] show ?thesis
        by simp
    next
      case False
      note f = False
      show ?thesis
      proof (cases "list_ex (\<lambda>pattern. contains pattern (lower env command))
                      natural_language_patterns \<and> AI_ENABLED env")
        case True
        with Cons have "terminal_run_command depth env w command = terminal_handle_ai_command depth env w command"
          by (simp add: terminal_run_command_ai)
        with "1.IH"(2) [OF Cons f True] show ?thesis
          by simp
      next
        case False
        with Cons f have "terminal_run_command depth env w command =
                            terminal_native env w command (lower env part) args"
          by (intro terminal_run_command_native) auto
        then show ?thesis
          using terminal_native_calls_extend [of env w command "lower env part" args] by simp
      qed
    qed
  qed
next
  case (2 depth env w natural_language_input)
  define r where "r = terminal_interpret_natural_language depth env w natural_language_input"
  have c: "\<exists>rest. calls (snd r) = calls w @ rest"
    unfolding r_def by (simp add: terminal_interpret_calls)
  show ?case
  proof (cases "fst (fst r) \<and> fst (snd (fst r)) \<noteq> []")
    case True
    then have "\<exists>rest. calls (snd (terminal_run_command (depth - 1) env
                 (print_suggestion (snd r) (fst (snd (fst r))) (fst (snd (snd (fst r)))))
                 (fst (snd (fst r))))) =
                 calls (print_suggestion (snd r) (fst (snd (fst r))) (fst (snd (snd (fst r))))) @ rest"
      using "2.IH" [OF r_def] by simp
    with c have "\<exists>rest. calls (snd (terminal_run_command (depth - 1) env
                 (print_suggestion (snd r) (fst (snd (fst r))) (fst (snd (snd (fst r)))))
                 (fst (snd (fst r))))) =
                 calls w @ rest"
      by (auto simp: print_suggestion_def)
    with True show ?thesis
      by (simp add: terminal_handle_ai_command.simps r_def [symmetric] Let_def)
  next
    case False
    with c show ?thesis
      by (auto simp: terminal_handle_ai_command.simps r_def [symmetric] Let_def)
  qed
qed

lemma terminal_ai_calls:
  assumes "AI_ENABLED env"
  shows "\<exists>rest. calls (snd (terminal_handle_ai_command depth env w c)) = calls w @ Translate c # rest"
proof -
  define r where "r = terminal_interpret_natural_language depth env w c"
  have c: "calls (snd r) = calls w @ [Translate c]"
    unfolding r_def using assms by (simp add: terminal_interpret_calls)
  show ?thesis
  proof (cases "fst (fst r) \<and> fst (snd (fst r)) \<noteq> []")
    case True
    obtain rest where "calls (snd (terminal_run_command (depth - 1) env
                 (print_suggestion (snd r) (fst (snd (fst r))) (fst (snd (snd (fst r)))))
                 (fst (snd (fst r))))) =
                 calls (print_suggestion (snd r) (fst (snd (fst r))) (fst (snd (snd (fst r))))) @ rest"
      using terminal_calls_extend(1) by blast
    with c have "calls (snd (terminal_run_command (depth - 1) env
                 (print_suggestion (snd r) (fst (snd (fst r))) (fst (snd (snd (fst r)))))
                 (fst (snd (fst r))))) =
                 calls w @ Translate c # rest"
      by (simp add: print_suggestion_def)
    with True show ?thesis
      by (simp add: terminal_handle_ai_command.simps r_def [symmetric] Let_def)
  next
    case False
    with c show ?thesis
      by (auto simp: terminal_handle_ai_command.simps r_def [symmetric] Let_def)
  qed
qed

text \<open>
  Claim C5. A line whose lower-cased text contains one of the six phrases is handed
  to \<^verbatim>\<open>_handle_ai_command\<close> whenever \<^verbatim>\<open>AI_ENABLED\<close> holds, with no condition on the number
  of its tokens or on its first token, in both files; and the first call that the
  dispatch of the line adds to the log is the call of the completion service with that
  very line.
\<close>

theorem phrase_routes_to_translator:
  assumes "AI_ENABLED env"
    and "list_ex (\<lambda>pattern. contains pattern (lower env command)) natural_language_patterns"
  shows "app_run_command depth env w command = app_handle_ai_command depth env w command
       \<and> terminal_run_command depth env w command =
           terminal_handle_ai_command depth env w command
       \<and> (\<exists>rest. calls (snd (app_run_command depth env w command)) =
                   calls w @ Translate command # rest)
       \<and> (\<exists>rest. calls (snd (terminal_run_command depth env w command)) =
                   calls w @ Translate command # rest)"
proof -
  from assms(2) obtain part args where parts: "split (strip command) = part # args"
    using phrase_line_has_token by (cases "split (strip command)") auto
  have a: "app_run_command depth env w command = app_handle_ai_command depth env w command"
    using parts assms by (simp add: app_run_command_ai)
  have t: "terminal_run_command depth env w command =
             terminal_handle_ai_command depth env w command"
    using parts assms by (simp add: terminal_run_command_ai)
  have ca: "\<exists>rest. calls (snd (app_run_command depth env w command)) =
                   calls w @ Translate command # rest"
    unfolding a using assms(1) by (rule app_ai_calls)
  have ct: "\<exists>rest. calls (snd (terminal_run_command depth env w command)) =
                   calls w @ Translate command # rest"
    unfolding t using assms(1) by (rule terminal_ai_calls)
  from a t ca ct show ?thesis by blast
qed

lemma ls_what_is_here_phrase:
  "list_ex (\<lambda>pattern. contains pattern (lower env (ascii ''ls what is here'')))
     natural_language_patterns"
  by (simp add: natural_language_patterns_def lower_def lower_at_def ascii_def)

text \<open>The line \<^verbatim>\<open>ls what is here\<close> starts with a reserved word and is translated all the
  same.\<close>

theorem phrase_routes_to_translator_witness:
  "AI_ENABLED env0 \<and>
   list_ex (\<lambda>pattern. contains pattern (lower env0 (ascii ''ls what is here'')))
     natural_language_patterns \<and>
   app_run_command 1 env0 w0 (ascii ''ls what is here'') =
     app_handle_ai_command 1 env0 w0 (ascii ''ls what is here'') \<and>
   (\<exists>rest. calls (snd (app_run_command 1 env0 w0 (ascii ''ls what is here''))) =
             Translate (ascii ''ls what is here'') # rest)"
proof -
  have e: "AI_ENABLED env0"
    by (simp add: env0_def)
  have p: "list_ex (\<lambda>pattern. contains pattern (lower env0 (ascii ''ls what is here'')))
             natural_language_patterns"
    by (rule ls_what_is_here_phrase)
  have c: "calls w0 = []"
    by (simp add: w0_def)
  from phrase_routes_to_translator [OF e p, of 1 w0] e p show ?thesis
    unfolding c append_Nil by blast
qed

section \<open>Properties of the arguments\<close>

text \<open>
  Claim C9. Each handler that takes a path reads \<^verbatim>\<open>args[0]\<close> and nothing else of
  \<^verbatim>\<open>args\<close>: called with further arguments, it returns the same result and leaves the
  same state as when called with the first argument alone. This holds for the
  handlers of list-directory, change-directory, make-directory, remove-file and
  read-file in both files.
\<close>

theorem extra_arguments_ignored:
  "app_handle_ls w (a # rest) = app_handle_ls w [a]
   \<and> app_handle_cd_robust env w (a # rest) = app_handle_cd_robust env w [a]
   \<and> app_handle_mkdir_robust w (a # rest) = app_handle_mkdir_robust w [a]
   \<and> app_handle_rm_robust w (a # rest) = app_handle_rm_robust w [a]
   \<and> app_handle_cat_robust env w (a # rest) = app_handle_cat_robust env w [a]
   \<and> terminal_handle_ls w (a # rest) = terminal_handle_ls w [a]
   \<and> terminal_handle_cd_robust env w (a # rest) = terminal_handle_cd_robust env w [a]
   \<and> terminal_handle_mkdir_robust w (a # rest) = terminal_handle_mkdir_robust w [a]
   \<and> terminal_handle_rm_robust w (a # rest) = terminal_handle_rm_robust w [a]
   \<and> terminal_handle_cat_robust env w (a # rest) = terminal_handle_cat_robust env w [a]"
  by (simp add: app_handle_ls_def app_handle_cd_robust_def app_handle_mkdir_robust_def
      app_handle_rm_robust_def app_handle_cat_robust_def terminal_handle_ls_def
      terminal_handle_cd_robust_def terminal_handle_mkdir_robust_def
      terminal_handle_rm_robust_def terminal_handle_cat_robust_def)

lemmas os_eval =
  resolve_def os_stat_def os_path_exists_def os_path_isdir_def os_path_isfile_def
  os_remove_def node_at_def split_on_def ascii_def

text \<open>Remove-file with the names of two existing files removes the first, leaves the
  second, and reports success.\<close>

theorem extra_arguments_ignored_witness:
  "app_handle_rm_robust w0 [(ascii ''notes.txt''), (ascii ''b.txt'')] = app_handle_rm_robust w0 [(ascii ''notes.txt'')]
   \<and> fst (app_handle_rm_robust w0 [(ascii ''notes.txt''), (ascii ''b.txt'')]) =
       (True, (ascii ''Removed file: notes.txt''), [])
   \<and> \<not> os_path_exists (snd (app_handle_rm_robust w0 [(ascii ''notes.txt''), (ascii ''b.txt'')])) (ascii ''notes.txt'')
   \<and> os_path_isfile (snd (app_handle_rm_robust w0 [(ascii ''notes.txt''), (ascii ''b.txt'')])) (ascii ''b.txt'')"
proof -
  have r: "app_handle_rm_robust w0 [(ascii ''notes.txt'')] =
             ((True, (ascii ''Removed file: notes.txt''), []),
              w0\<lparr>fs := [([(ascii ''home'')], Dir True),
                         ([(ascii ''home''), (ascii ''user'')], Dir True),
                         ([(ascii ''home''), (ascii ''user''), (ascii ''b.txt'')], File True (ascii ''bye'')),
                         ([(ascii ''home''), (ascii ''user''), (ascii ''docs'')], Dir True),
                         ([(ascii ''home''), (ascii ''user''), (ascii ''secret'')], Dir False)]\<rparr>)"
    by (simp add: app_handle_rm_robust_def os_eval w0_def AList.delete_eq)
  have x: "app_handle_rm_robust w0 [(ascii ''notes.txt''), (ascii ''b.txt'')] =
             app_handle_rm_robust w0 [(ascii ''notes.txt'')]"
    using extra_arguments_ignored [of w0 "(ascii ''notes.txt'')" "[(ascii ''b.txt'')]" env0] by simp
  show ?thesis
    unfolding x r by (simp add: os_eval w0_def)
qed

section \<open>Reserved words\<close>

lemma app_reserved_word_stays_native:
  assumes "split (strip command) = part # args"
    and "lower env part \<in> set reserved_words"
    and "length (part # args) \<le> 2"
    and "\<not> list_ex (\<lambda>pattern. contains pattern (lower env command)) natural_language_patterns"
  shows "app_run_command depth env w command = app_native env w command (lower env part) args
       \<and> calls (snd (app_run_command depth env w command)) = calls w"
proof -
  have r: "app_run_command depth env w command = app_native env w command (lower env part) args"
    using assms by (intro app_run_command_native) auto
  show ?thesis
    unfolding r using assms(2) by (simp add: app_native_calls)
qed

lemma terminal_reserved_word_stays_native:
  assumes "split (strip command) = part # args"
    and "lower env part \<in> set reserved_words"
    and "lower env part \<noteq> (ascii ''clear'')"
    and "length (part # args) \<le> 2"
    and "\<not> list_ex (\<lambda>pattern. contains pattern (lower env command)) natural_language_patterns"
  shows "terminal_run_command depth env w command =
           terminal_native env w command (lower env part) args
       \<and> calls (snd (terminal_run_command depth env w command)) = calls w"
proof -
  have r: "terminal_run_command depth env w command =
             terminal_native env w command (lower env part) args"
    using assms by (intro terminal_run_command_native) auto
  show ?thesis
    unfolding r using assms(2,3) by (simp add: terminal_native_calls)
qed

lemma clear_x_tokens: "split (strip (ascii ''clear x'')) = [(ascii ''clear''), (ascii ''x'')]"
  by (simp add: split_def strip_def isspace_def ascii_def)

lemma lower_clear: "lower env (ascii ''clear'') = (ascii ''clear'')"
  by (simp add: lower_def lower_at_def ascii_def)

lemma lower_clear_x: "lower env (ascii ''clear x'') = (ascii ''clear x'')"
  by (simp add: lower_def lower_at_def ascii_def)

lemma clear_reserved: "(ascii ''clear'') \<in> set reserved_words"
  by (simp add: reserved_words_def)

lemma clear_x_no_phrase:
  "\<not> list_ex (\<lambda>pattern. contains pattern (lower env (ascii ''clear x'')))
       natural_language_patterns"
  unfolding lower_clear_x by (simp add: natural_language_patterns_def ascii_def)

lemma terminal_clear_x_dispatch:
  "terminal_run_command depth env w (ascii ''clear x'') =
     handle_external_command env w (ascii ''clear x'')"
proof -
  have n: "terminal_native env w (ascii ''clear x'') (ascii ''clear'') [(ascii ''x'')] =
             handle_external_command env w (ascii ''clear x'')"
    by (simp add: terminal_native_def ascii_def)
  have "terminal_run_command depth env w (ascii ''clear x'') =
          terminal_native env w (ascii ''clear x'') (lower env (ascii ''clear'')) [(ascii ''x'')]"
    using clear_x_no_phrase [of env] clear_reserved
    by (intro terminal_run_command_native) (simp_all add: clear_x_tokens lower_clear)
  then show ?thesis
    by (simp add: lower_clear n)
qed

text \<open>
  Claim C6 at the line \<^verbatim>\<open>clear x\<close> in terminal.py. The first token is the reserved
  word \<^verbatim>\<open>clear\<close>, there are two tokens and no phrase; and \<^verbatim>\<open>run_command\<close>, whose chain
  has no branch for \<^verbatim>\<open>clear\<close>, hands the line to \<^verbatim>\<open>_handle_external_command\<close>, which runs
  it in the shell, whether or not the translator is enabled.
\<close>

theorem terminal_clear_reaches_shell:
  "lower env (ascii ''clear'') \<in> set reserved_words
   \<and> split (strip (ascii ''clear x'')) = [(ascii ''clear''), (ascii ''x'')]
   \<and> \<not> list_ex (\<lambda>pattern. contains pattern (lower env (ascii ''clear x'')))
          natural_language_patterns
   \<and> terminal_run_command depth env w (ascii ''clear x'') =
       handle_external_command env w (ascii ''clear x'')
   \<and> calls (snd (terminal_run_command depth env w (ascii ''clear x''))) =
       calls w @ [Subprocess (ascii ''clear x'')]"
proof -
  have a: "lower env (ascii ''clear'') \<in> set reserved_words"
    unfolding lower_clear by (rule clear_reserved)
  have c: "calls (snd (terminal_run_command depth env w (ascii ''clear x''))) =
       calls w @ [Subprocess (ascii ''clear x'')]"
    unfolding terminal_clear_x_dispatch by (rule handle_external_command_calls)
  from a clear_x_tokens clear_x_no_phrase [of env] terminal_clear_x_dispatch [of depth env w] c
  show ?thesis
    by blast
qed

text \<open>The same line typed at the prompt of terminal.py is not caught by the loop, which
  compares the whole line with \<^verbatim>\<open>clear\<close>, and reaches the shell.\<close>

lemma terminal_prompt_clear_x:
  "calls (snd (terminal_main_step env w (ascii ''clear x''))) =
     calls w @ [Subprocess (ascii ''clear x'')]"
proof -
  have c: "calls (snd (terminal_run_command (recursion_limit env) env w (ascii ''clear x''))) =
             calls w @ [Subprocess (ascii ''clear x'')]"
    unfolding terminal_clear_x_dispatch by (simp add: handle_external_command_calls)
  obtain r w1 where rw:
    "terminal_run_command (recursion_limit env) env w (ascii ''clear x'') = (r, w1)"
    by (cases "terminal_run_command (recursion_limit env) env w (ascii ''clear x'')")
  with c have c1: "calls w1 = calls w @ [Subprocess (ascii ''clear x'')]"
    by simp
  have n: "(ascii ''clear x'') \<noteq> []"
       "(ascii ''clear x'') \<notin> set [(ascii ''exit''), (ascii ''quit''), (ascii ''q'')]"
       "(ascii ''clear x'') \<noteq> (ascii ''clear'')"
    by (simp_all add: ascii_def)
  show ?thesis
    unfolding terminal_main_step_def lower_clear_x rw using c1 n
    by (cases r) (simp add: print_result_def)
qed

text \<open>In app.py the chain has the branch, and the same line stays inside.\<close>

lemma app_clear_stays_native:
  "app_run_command depth env w (ascii ''clear x'') = ((True, (ascii ''CLEAR_SCREEN''), []), w)"
proof -
  have n: "app_native env w (ascii ''clear x'') (ascii ''clear'') [(ascii ''x'')] = (app_handle_clear, w)"
    by (simp add: app_native_def ascii_def)
  have "app_run_command depth env w (ascii ''clear x'') =
          app_native env w (ascii ''clear x'') (lower env (ascii ''clear'')) [(ascii ''x'')]"
    using clear_x_no_phrase [of env] clear_reserved
    by (intro app_run_command_native) (simp_all add: clear_x_tokens lower_clear)
  then show ?thesis
    by (simp add: lower_clear n app_handle_clear_def)
qed

section \<open>Properties of the translation\<close>
























section \<open>Properties of the request handler\<close>

lemma app_interpret_history:
  "command_history (snd (app_interpret_natural_language depth env w line)) = command_history w"
  by (simp add: app_interpret_natural_language_def split: sum.splits)

lemma app_history_unchanged:
  "command_history (snd (app_run_command depth env w c)) = command_history w"
  "command_history (snd (app_handle_ai_command depth env w c)) = command_history w"
proof (induction depth env w c and depth env w c rule: app_run_command_app_handle_ai_command.induct)
  case (1 depth env w command)
  show ?case
  proof (cases "split (strip command)")
    case Nil
    then show ?thesis
      by (simp add: app_run_command_empty)
  next
    case (Cons part args)
    show ?thesis
    proof (cases "2 < length (part # args) \<and> lower env part \<notin> set reserved_words \<and> AI_ENABLED env")
      case True
      with Cons have "app_run_command depth env w command = app_handle_ai_command depth env w command"
        by (simp add: app_run_command_ai)
      with "1.IH"(1) [OF Cons True] show ?thesis
        by simp
    next
      case False
      note f = False
      show ?thesis
      proof (cases "list_ex (\<lambda>pattern. contains pattern (lower env command))
                      natural_language_patterns \<and> AI_ENABLED env")
        case True
        with Cons have "app_run_command depth env w command = app_handle_ai_command depth env w command"
          by (simp add: app_run_command_ai)
        with "1.IH"(2) [OF Cons f True] show ?thesis
          by simp
      next
        case False
        with Cons f have "app_run_command depth env w command =
                            app_native env w command (lower env part) args"
          by (intro app_run_command_native) auto
        then show ?thesis
          by (simp add: app_native_history)
      qed
    qed
  qed
next
  case (2 depth env w natural_language_input)
  define r where "r = app_interpret_natural_language depth env w natural_language_input"
  have c: "command_history (snd r) = command_history w"
    unfolding r_def by (rule app_interpret_history)
  show ?case
  proof (cases "fst (fst r) \<and> fst (snd (fst r)) \<noteq> []")
    case True
    then have "command_history (snd (app_run_command (depth - 1) env (snd r) (fst (snd (fst r))))) =
                 command_history (snd r)"
      using "2.IH" [OF r_def] by simp
    with c True show ?thesis
      by (simp add: app_handle_ai_command.simps r_def [symmetric] Let_def)
  next
    case False
    with c show ?thesis
      by (auto simp: app_handle_ai_command.simps r_def [symmetric] Let_def)
  qed
qed

lemma execute_command_not_dispatched:
  "strip posted = [] \<or>
   lower env (strip posted) \<in> set [(ascii ''exit''), (ascii ''quit''), (ascii ''q'')] \<Longrightarrow>
   snd (execute_command env w (Some posted)) = w"
  by (auto simp: execute_command_def Let_def)

lemma get_session_id_history:
  "command_history (snd (get_session_id env w)) = command_history w"
  by (subst get_session_id_frame) simp

lemma add_to_history_map:
  "command_history (add_to_history env w sid cmd out succ) =
     (command_history w)(sid \<mapsto>
        (case command_history w sid of None \<Rightarrow> [] | Some es \<Rightarrow> es) @
        [\<lparr>h_timestamp = datetime_now env, h_command = cmd, h_output = out, h_success = succ\<rparr>])"
  by (simp add: add_to_history_def Let_def split: option.splits)

lemma execute_command_history:
  assumes "strip posted \<noteq> []"
    and "lower env (strip posted) \<notin> set [(ascii ''exit''), (ascii ''quit''), (ascii ''q'')]"
    and "app_run_command (recursion_limit env) env w (strip posted) = ((succ, out, err), w1)"
  shows "command_history (snd (execute_command env w (Some posted))) =
           (command_history w)(fst (get_session_id env w1) \<mapsto>
              (case command_history w (fst (get_session_id env w1)) of
                 None \<Rightarrow> [] | Some es \<Rightarrow> es) @
              [\<lparr>h_timestamp = datetime_now env, h_command = strip posted,
                h_output = out, h_success = succ\<rparr>])"
proof -
  obtain sid w2 where g: "get_session_id env w1 = (sid, w2)"
    by (cases "get_session_id env w1")
  have h1: "command_history w1 = command_history w"
    using app_history_unchanged(1) [of "recursion_limit env" env w "strip posted"]
    by (simp add: assms(3))
  have h2: "command_history w2 = command_history w"
    using get_session_id_history [of env w1] by (simp add: g h1)
  have "command_history (snd (execute_command env w (Some posted))) =
          command_history (add_to_history env w2 sid (strip posted) out succ)"
    using assms(1,2)
    by (simp add: execute_command_def Let_def assms(3) g split: sum.splits)
  then show ?thesis
    by (simp add: add_to_history_map h2 g)
qed

text \<open>
  Claim C4, as the code has it. A request whose stripped line is not empty and is not
  \<^verbatim>\<open>exit\<close>, \<^verbatim>\<open>quit\<close> or \<^verbatim>\<open>q\<close> is dispatched, and \<^verbatim>\<open>execute_command\<close> then appends exactly
  one entry to the ledger of the session, whether the dispatch succeeded or failed;
  nothing else in the ledger changes, and the dispatch itself, with its re-dispatch of
  a translated command, leaves the ledger as it was. The entry holds the stripped line
  of the request, not the translated command, with the output and the success flag of
  the dispatch.
\<close>

theorem dispatch_recorded_once:
  assumes "strip posted \<noteq> []"
    and "lower env (strip posted) \<notin> set [(ascii ''exit''), (ascii ''quit''), (ascii ''q'')]"
  shows "command_history (snd (app_run_command (recursion_limit env) env w (strip posted))) =
           command_history w
       \<and> command_history (snd (execute_command env w (Some posted))) =
           (command_history w)
             (fst (get_session_id env
                     (snd (app_run_command (recursion_limit env) env w (strip posted)))) \<mapsto>
              (case command_history w
                      (fst (get_session_id env
                              (snd (app_run_command (recursion_limit env) env w
                                      (strip posted))))) of
                 None \<Rightarrow> [] | Some es \<Rightarrow> es) @
              [\<lparr>h_timestamp = datetime_now env, h_command = strip posted,
                h_output = fst (snd (fst (app_run_command (recursion_limit env) env w
                                            (strip posted)))),
                h_success = fst (fst (app_run_command (recursion_limit env) env w
                                        (strip posted)))\<rparr>])"
proof -
  obtain succ out err w1
    where r: "app_run_command (recursion_limit env) env w (strip posted) = ((succ, out, err), w1)"
    by (cases "app_run_command (recursion_limit env) env w (strip posted)") auto
  have a: "command_history (snd (app_run_command (recursion_limit env) env w (strip posted))) =
           command_history w"
    by (rule app_history_unchanged(1))
  have b: "command_history (snd (execute_command env w (Some posted))) =
           (command_history w)(fst (get_session_id env w1) \<mapsto>
              (case command_history w (fst (get_session_id env w1)) of
                 None \<Rightarrow> [] | Some es \<Rightarrow> es) @
              [\<lparr>h_timestamp = datetime_now env, h_command = strip posted,
                h_output = out, h_success = succ\<rparr>])"
    using assms r by (rule execute_command_history)
  show ?thesis
    using a b unfolding r by simp
qed

lemma cat_nothing_tokens:
  "split (strip (ascii ''cat nothing'')) = [(ascii ''cat''), (ascii ''nothing'')]"
  by (simp add: split_def strip_def isspace_def ascii_def)

lemma lower_cat: "lower env (ascii ''cat'') = (ascii ''cat'')"
  by (simp add: lower_def lower_at_def ascii_def)

lemma lower_cat_nothing: "lower env (ascii ''cat nothing'') = (ascii ''cat nothing'')"
  by (simp add: lower_def lower_at_def ascii_def)

lemma cat_nothing_no_phrase:
  "\<not> list_ex (\<lambda>pattern. contains pattern (lower env (ascii ''cat nothing'')))
       natural_language_patterns"
  unfolding lower_cat_nothing by (simp add: natural_language_patterns_def ascii_def)

lemma cat_nothing_dispatch:
  "app_run_command depth env0 w0 (ascii ''cat nothing'') =
     ((False, [], (ascii ''cat: no such file: '') @ quoted (ascii ''nothing'')), w0)"
proof -
  have x: "\<not> os_path_exists w0 (ascii ''nothing'')"
    by (simp add: os_eval w0_def)
  have n: "app_native env0 w0 (ascii ''cat nothing'') (ascii ''cat'') [(ascii ''nothing'')] =
             ((False, [], (ascii ''cat: no such file: '') @ quoted (ascii ''nothing'')), w0)"
    using x by (simp add: app_native_def app_handle_cat_robust_def ascii_def)
  have "app_run_command depth env0 w0 (ascii ''cat nothing'') =
          app_native env0 w0 (ascii ''cat nothing'') (lower env0 (ascii ''cat''))
            [(ascii ''nothing'')]"
    using cat_nothing_no_phrase [of env0]
    by (intro app_run_command_native) (simp_all add: cat_nothing_tokens)
  then show ?thesis
    by (simp add: lower_cat n)
qed

lemma strip_cat_nothing: "strip (ascii '' cat nothing '') = (ascii ''cat nothing'')"
  by (simp add: strip_def isspace_def ascii_def)

lemma cat_nothing_not_exit:
  "(ascii ''cat nothing'') \<noteq> [] \<and>
   (ascii ''cat nothing'') \<notin> set [(ascii ''exit''), (ascii ''quit''), (ascii ''q'')]"
  by (simp add: ascii_def)

text \<open>The request \<^verbatim>\<open>cat nothing\<close>, sent with blanks around it, fails and is recorded as
  it was sent but for the blanks.\<close>

theorem dispatch_recorded_once_witness:
  "strip (ascii '' cat nothing '') \<noteq> [] \<and>
   lower env0 (strip (ascii '' cat nothing '')) \<notin>
     set [(ascii ''exit''), (ascii ''quit''), (ascii ''q'')] \<and>
   command_history (snd (execute_command env0 w0 (Some (ascii '' cat nothing ''))))
     (ascii ''session-0'') =
     Some [\<lparr>h_timestamp = (ascii ''2024-01-01T00:00:00''), h_command = (ascii ''cat nothing''),
            h_output = [], h_success = False\<rparr>]"
proof -
  have a: "strip (ascii '' cat nothing '') \<noteq> []"
    unfolding strip_cat_nothing using cat_nothing_not_exit by simp
  have b: "lower env0 (strip (ascii '' cat nothing '')) \<notin>
             set [(ascii ''exit''), (ascii ''quit''), (ascii ''q'')]"
    unfolding strip_cat_nothing lower_cat_nothing using cat_nothing_not_exit by simp
  have g: "fst (get_session_id env0 w0) = (ascii ''session-0'')"
    by (simp add: get_session_id_def Let_def w0_def env0_def ascii_def)
  have d: "datetime_now env0 = (ascii ''2024-01-01T00:00:00'')"
    by (simp add: env0_def)
  have h: "command_history w0 = Map.empty"
    by (simp add: w0_def)
  from dispatch_recorded_once [OF a b, of w0]
  have "command_history (snd (execute_command env0 w0 (Some (ascii '' cat nothing ''))))
          (ascii ''session-0'') =
     Some [\<lparr>h_timestamp = (ascii ''2024-01-01T00:00:00''), h_command = (ascii ''cat nothing''),
            h_output = [], h_success = False\<rparr>]"
    unfolding strip_cat_nothing cat_nothing_dispatch by (simp add: g d h)
  with a b show ?thesis
    by (simp only: simp_thms)
qed

text \<open>
  The claim as stated fails: the dispatch of \<^verbatim>\<open>cat nothing\<close> does not succeed, and an
  entry is appended for it all the same, with its success flag false.
\<close>

theorem failed_dispatch_recorded:
  "fst (app_run_command (recursion_limit env0) env0 w0 (ascii ''cat nothing'')) =
     (False, [], (ascii ''cat: no such file: '') @ quoted (ascii ''nothing''))
   \<and> command_history w0 (ascii ''session-0'') = None
   \<and> command_history (snd (execute_command env0 w0 (Some (ascii ''cat nothing''))))
       (ascii ''session-0'') =
     Some [\<lparr>h_timestamp = (ascii ''2024-01-01T00:00:00''), h_command = (ascii ''cat nothing''),
            h_output = [], h_success = False\<rparr>]"
proof -
  have s: "strip (ascii ''cat nothing'') = (ascii ''cat nothing'')"
    by (simp add: strip_def isspace_def ascii_def)
  have g: "fst (get_session_id env0 w0) = (ascii ''session-0'')"
    by (simp add: get_session_id_def Let_def w0_def env0_def ascii_def)
  have d: "datetime_now env0 = (ascii ''2024-01-01T00:00:00'')"
    by (simp add: env0_def)
  have h: "command_history w0 = Map.empty"
    by (simp add: w0_def)
  have a: "strip (ascii ''cat nothing'') \<noteq> []"
    unfolding s using cat_nothing_not_exit by simp
  have b: "lower env0 (strip (ascii ''cat nothing'')) \<notin>
             set [(ascii ''exit''), (ascii ''quit''), (ascii ''q'')]"
    unfolding s lower_cat_nothing using cat_nothing_not_exit by simp
  have "command_history (snd (execute_command env0 w0 (Some (ascii ''cat nothing''))))
          (ascii ''session-0'') =
     Some [\<lparr>h_timestamp = (ascii ''2024-01-01T00:00:00''), h_command = (ascii ''cat nothing''),
            h_output = [], h_success = False\<rparr>]"
    using execute_command_history [OF a b, of w0 False "[]"
        "(ascii ''cat: no such file: '') @ quoted (ascii ''nothing'')" w0]
    unfolding s by (simp add: cat_nothing_dispatch g d h)
  then show ?thesis
    by (simp add: cat_nothing_dispatch h)
qed

section \<open>Properties of change-directory\<close>

lemma cd_except_fails: "fst (cd_except a e) = False"
  by (cases "(a, e)" rule: cd_except.cases) simp_all

lemma os_getcwd_Inr: "os_getcwd w = Inr d \<Longrightarrow> d = abspath (cwd w)"
  by (auto simp: os_getcwd_def split: option.splits node.splits)

lemma node_at_cwd_update: "node_at (w\<lparr>cwd := p\<rparr>) q = node_at w q"
  by (simp add: node_at_def)

lemma cd_parent:
  assumes "node_at w (cwd w) = Some (Dir True)"
    and "node_at w (butlast (cwd w)) = Some (Dir True)"
  shows "cd_try env w (ascii ''..'') = Inr (w\<lparr>cwd := butlast (cwd w)\<rparr>)"
  using assms by (simp add: cd_try_def os_chdir_def resolve_def split_on_def ascii_def)

lemma app_cd_reports:
  "fst (fst (app_handle_cd_robust env w args)) \<Longrightarrow>
   fst (snd (fst (app_handle_cd_robust env w args))) =
     (ascii ''Changed to: '') @ abspath (cwd (snd (app_handle_cd_robust env w args)))"
  by (auto simp: app_handle_cd_robust_def cd_except_fails dest: os_getcwd_Inr
      split: list.splits sum.splits)

lemma terminal_cd_silent:
  "fst (fst (terminal_handle_cd_robust env w args)) \<Longrightarrow>
   snd (fst (terminal_handle_cd_robust env w args)) = ([], [])"
  by (auto simp: terminal_handle_cd_robust_def cd_except_fails split: list.splits sum.splits)

lemma expanduser_home:
  "HOME env = Some home \<Longrightarrow>
   expanduser env ((ascii ''~/'') @ rest) = rstrip_slash home @ (ascii ''/'') @ rest"
  by (simp add: expanduser_def ascii_def)

lemma expanduser_tilde:
  "HOME env = Some home \<Longrightarrow>
   expanduser env (ascii ''~'') =
     (if rstrip_slash home = [] then (ascii ''/'') else rstrip_slash home)"
  by (simp add: expanduser_def ascii_def)

lemma expanduser_home_unset:
  "HOME env = None \<Longrightarrow> getpwuid_dir env = Some home \<Longrightarrow>
   expanduser env ((ascii ''~/'') @ rest) = rstrip_slash home @ (ascii ''/'') @ rest"
  by (simp add: expanduser_def ascii_def)

lemma expanduser_tilde_unset:
  "HOME env = None \<Longrightarrow> getpwuid_dir env = Some home \<Longrightarrow>
   expanduser env (ascii ''~'') =
     (if rstrip_slash home = [] then (ascii ''/'') else rstrip_slash home)"
  by (simp add: expanduser_def ascii_def)

lemma cd_tilde:
  "cd_try env w ((of_char CHR ''~'') # rest) =
     os_chdir w (expanduser env ((of_char CHR ''~'') # rest))"
  by (simp add: cd_try_def ascii_def)

text \<open>
  Claim C3, as the code has it. In both files change-directory fails with the usage
  message when no path is given; \<^verbatim>\<open>.\<close> leaves the working directory as it is; \<^verbatim>\<open>..\<close> is
  handed to the directory change of the system, which moves to the parent; a path that
  starts with \<^verbatim>\<open>~\<close> goes through \<^verbatim>\<open>os.path.expanduser\<close> before the directory change, so
  that \<^verbatim>\<open>~\<close> and \<^verbatim>\<open>~/...\<close> lead to the home directory of the user. On success the handler
  of app.py reports the new absolute working directory; the handler of terminal.py
  returns an empty output.
\<close>

theorem cd_behaviour:
  "app_handle_cd_robust env w [] =
     ((False, [], (ascii ''cd: missing directory argument. Usage: cd <directory>'')), w)
   \<and> terminal_handle_cd_robust env w [] =
     ((False, [], (ascii ''cd: missing directory argument. Usage: cd <directory>'')), w)
   \<and> cd_try env w (ascii ''.'') = Inr w
   \<and> cd_try env w (ascii ''..'') = os_chdir w (ascii ''..'')
   \<and> (node_at w (cwd w) = Some (Dir True) \<and> node_at w (butlast (cwd w)) = Some (Dir True) \<longrightarrow>
        app_handle_cd_robust env w ((ascii ''..'') # rest) =
          ((True, (ascii ''Changed to: '') @ abspath (butlast (cwd w)), []), w\<lparr>cwd := butlast (cwd w)\<rparr>)
        \<and> terminal_handle_cd_robust env w ((ascii ''..'') # rest) =
          ((True, [], []), w\<lparr>cwd := butlast (cwd w)\<rparr>))
   \<and> cd_try env w ((of_char CHR ''~'') # path) = os_chdir w (expanduser env ((of_char CHR ''~'') # path))
   \<and> (HOME env = Some home \<longrightarrow>
        expanduser env (ascii ''~'') = (if rstrip_slash home = [] then (ascii ''/'') else rstrip_slash home)
        \<and> expanduser env ((ascii ''~/'') @ path) = rstrip_slash home @ (ascii ''/'') @ path)
   \<and> (HOME env = None \<and> getpwuid_dir env = Some home \<longrightarrow>
        expanduser env (ascii ''~'') = (if rstrip_slash home = [] then (ascii ''/'') else rstrip_slash home)
        \<and> expanduser env ((ascii ''~/'') @ path) = rstrip_slash home @ (ascii ''/'') @ path)
   \<and> (fst (fst (app_handle_cd_robust env w args)) \<longrightarrow>
        fst (snd (fst (app_handle_cd_robust env w args))) =
          (ascii ''Changed to: '') @ abspath (cwd (snd (app_handle_cd_robust env w args))))
   \<and> (fst (fst (terminal_handle_cd_robust env w args)) \<longrightarrow>
        snd (fst (terminal_handle_cd_robust env w args)) = ([], []))"
proof -
  have a: "app_handle_cd_robust env w [] =
     ((False, [], (ascii ''cd: missing directory argument. Usage: cd <directory>'')), w)"
    by (simp add: app_handle_cd_robust_def)
  have b: "terminal_handle_cd_robust env w [] =
     ((False, [], (ascii ''cd: missing directory argument. Usage: cd <directory>'')), w)"
    by (simp add: terminal_handle_cd_robust_def)
  have c: "cd_try env w (ascii ''.'') = Inr w"
    by (simp add: cd_try_def ascii_def)
  have d: "cd_try env w (ascii ''..'') = os_chdir w (ascii ''..'')"
    by (simp add: cd_try_def)
  have e: "node_at w (cwd w) = Some (Dir True) \<and> node_at w (butlast (cwd w)) = Some (Dir True) \<longrightarrow>
        app_handle_cd_robust env w ((ascii ''..'') # rest) =
          ((True, (ascii ''Changed to: '') @ abspath (butlast (cwd w)), []), w\<lparr>cwd := butlast (cwd w)\<rparr>)
        \<and> terminal_handle_cd_robust env w ((ascii ''..'') # rest) =
          ((True, [], []), w\<lparr>cwd := butlast (cwd w)\<rparr>)"
  proof
    assume h: "node_at w (cwd w) = Some (Dir True) \<and> node_at w (butlast (cwd w)) = Some (Dir True)"
    then have t: "cd_try env w (ascii ''..'') = Inr (w\<lparr>cwd := butlast (cwd w)\<rparr>)"
      by (simp add: cd_parent)
    have g: "os_getcwd (w\<lparr>cwd := butlast (cwd w)\<rparr>) = Inr (abspath (butlast (cwd w)))"
      using h by (simp add: os_getcwd_def node_at_cwd_update)
    show "app_handle_cd_robust env w ((ascii ''..'') # rest) =
          ((True, (ascii ''Changed to: '') @ abspath (butlast (cwd w)), []), w\<lparr>cwd := butlast (cwd w)\<rparr>)
        \<and> terminal_handle_cd_robust env w ((ascii ''..'') # rest) =
          ((True, [], []), w\<lparr>cwd := butlast (cwd w)\<rparr>)"
      by (simp add: app_handle_cd_robust_def terminal_handle_cd_robust_def t g)
  qed
  have f: "cd_try env w ((of_char CHR ''~'') # path) = os_chdir w (expanduser env ((of_char CHR ''~'') # path))"
    by (rule cd_tilde)
  have g: "HOME env = Some home \<longrightarrow>
        expanduser env (ascii ''~'') = (if rstrip_slash home = [] then (ascii ''/'') else rstrip_slash home)
        \<and> expanduser env ((ascii ''~/'') @ path) = rstrip_slash home @ (ascii ''/'') @ path"
    using expanduser_home [of env home path] expanduser_tilde [of env home] by blast
  have g2: "HOME env = None \<and> getpwuid_dir env = Some home \<longrightarrow>
        expanduser env (ascii ''~'') = (if rstrip_slash home = [] then (ascii ''/'') else rstrip_slash home)
        \<and> expanduser env ((ascii ''~/'') @ path) = rstrip_slash home @ (ascii ''/'') @ path"
    using expanduser_home_unset [of env home path] expanduser_tilde_unset [of env home] by blast
  have i: "fst (fst (app_handle_cd_robust env w args)) \<longrightarrow>
        fst (snd (fst (app_handle_cd_robust env w args))) =
          (ascii ''Changed to: '') @ abspath (cwd (snd (app_handle_cd_robust env w args)))"
    using app_cd_reports by blast
  have j: "fst (fst (terminal_handle_cd_robust env w args)) \<longrightarrow>
        snd (fst (terminal_handle_cd_robust env w args)) = ([], [])"
    using terminal_cd_silent by blast
  from a b c d e f g g2 i j show ?thesis
    by (intro conjI)
qed


text \<open>From \<^verbatim>\<open>/home/user\<close>, \<^verbatim>\<open>cd ..\<close> reports \<^verbatim>\<open>/home\<close> and \<^verbatim>\<open>cd ~/docs\<close> reports
  \<^verbatim>\<open>/home/user/docs\<close> in app.py.\<close>

theorem cd_behaviour_witness:
  "node_at w0 (cwd w0) = Some (Dir True) \<and> node_at w0 (butlast (cwd w0)) = Some (Dir True)
   \<and> app_handle_cd_robust env0 w0 [(ascii ''..'')] =
       ((True, (ascii ''Changed to: /home''), []), w0\<lparr>cwd := [(ascii ''home'')]\<rparr>)
   \<and> HOME env0 = Some (ascii ''/home/user'')
   \<and> expanduser env0 (ascii ''~/docs'') = (ascii ''/home/user/docs'')
   \<and> fst (fst (app_handle_cd_robust env0 w0 [(ascii ''~/docs'')]))
   \<and> fst (snd (fst (app_handle_cd_robust env0 w0 [(ascii ''~/docs'')]))) =
       (ascii ''Changed to: '') @ abspath (cwd (snd (app_handle_cd_robust env0 w0 [(ascii ''~/docs'')])))
   \<and> cwd (snd (app_handle_cd_robust env0 w0 [(ascii ''~/docs'')])) = [(ascii ''home''), (ascii ''user''), (ascii ''docs'')]"
proof -
  note t = cd_behaviour [where env = env0 and w = w0 and rest = "[]" and path = "(ascii ''docs'')"
      and home = "(ascii ''/home/user'')" and args = "[(ascii ''~/docs'')]"]
  have n: "node_at w0 (cwd w0) = Some (Dir True) \<and> node_at w0 (butlast (cwd w0)) = Some (Dir True)"
    by (simp add: node_at_def w0_def ascii_def)
  have b: "butlast (cwd w0) = [(ascii ''home'')]"
    by (simp add: w0_def)
  have a: "abspath [(ascii ''home'')] = (ascii ''/home'')"
    by (simp add: abspath_def ascii_def)
  from t n have p: "app_handle_cd_robust env0 w0 [(ascii ''..'')] =
       ((True, (ascii ''Changed to: '') @ abspath (butlast (cwd w0)), []), w0\<lparr>cwd := butlast (cwd w0)\<rparr>)"
    by blast
  have p': "app_handle_cd_robust env0 w0 [(ascii ''..'')] =
       ((True, (ascii ''Changed to: /home''), []), w0\<lparr>cwd := [(ascii ''home'')]\<rparr>)"
    using p by (simp add: b a) (simp add: ascii_def)
  have h: "HOME env0 = Some (ascii ''/home/user'')"
    by (simp add: env0_def)
  from t h have x: "expanduser env0 ((ascii ''~/'') @ (ascii ''docs'')) = rstrip_slash (ascii ''/home/user'') @ (ascii ''/'') @ (ascii ''docs'')"
    by blast
  have x': "expanduser env0 (ascii ''~/docs'') = (ascii ''/home/user/docs'')"
    using x by (simp add: rstrip_slash_def ascii_def)
  have r: "app_handle_cd_robust env0 w0 [(ascii ''~/docs'')] =
             ((True, (ascii ''Changed to: /home/user/docs''), []), w0\<lparr>cwd := [(ascii ''home''), (ascii ''user''), (ascii ''docs'')]\<rparr>)"
    using x'
    by (simp add: app_handle_cd_robust_def cd_try_def os_chdir_def os_getcwd_def resolve_def
        node_at_def split_on_def abspath_def w0_def ascii_def)
  have s: "fst (fst (app_handle_cd_robust env0 w0 [(ascii ''~/docs'')]))"
    by (simp add: r)
  from t s have o: "fst (snd (fst (app_handle_cd_robust env0 w0 [(ascii ''~/docs'')]))) =
       (ascii ''Changed to: '') @ abspath (cwd (snd (app_handle_cd_robust env0 w0 [(ascii ''~/docs'')])))"
    by blast
  have c: "cwd (snd (app_handle_cd_robust env0 w0 [(ascii ''~/docs'')])) = [(ascii ''home''), (ascii ''user''), (ascii ''docs'')]"
    by (simp add: r)
  from n p' h x' s o c show ?thesis
    by (intro conjI) blast+
qed

text \<open>
  The claim as stated fails: in terminal.py \<^verbatim>\<open>cd docs\<close> succeeds and moves to
  \<^verbatim>\<open>/home/user/docs\<close>, and the output returned is empty.
\<close>

theorem terminal_cd_counterexample:
  "terminal_handle_cd_robust env0 w0 [(ascii ''docs'')] =
     ((True, [], []), w0\<lparr>cwd := [(ascii ''home''), (ascii ''user''), (ascii ''docs'')]\<rparr>)
   \<and> os_getcwd (w0\<lparr>cwd := [(ascii ''home''), (ascii ''user''), (ascii ''docs'')]\<rparr>) = Inr (ascii ''/home/user/docs'')"
  by (simp add: terminal_handle_cd_robust_def cd_try_def os_chdir_def os_getcwd_def resolve_def
      node_at_def split_on_def abspath_def w0_def ascii_def)

section \<open>Properties of the paths\<close>

lemma split_on_from_append:
  "split_on_from sep w (a @ sep # b) = split_on_from sep w a @ split_on sep b"
  by (induction a arbitrary: w) (simp_all add: split_on_def)

lemma split_on_append:
  "split_on sep (a @ sep # b) = split_on sep a @ split_on sep b"
  by (simp add: split_on_def split_on_from_append [unfolded split_on_def])



lemma split_on_not_Nil: "split_on sep s \<noteq> []"
proof -
  have "split_on_from sep w s \<noteq> []" for w
    by (induction s arbitrary: w) auto
  then show ?thesis
    by (simp add: split_on_def)
qed

lemma split_on_replicate: "split_on sep (replicate k sep) = replicate (Suc k) []"
  by (induction k) (simp_all add: split_on_def)

lemma split_on_append_seps:
  "split_on sep (a @ replicate k sep) = split_on sep a @ replicate k []"
proof (cases k)
  case 0
  then show ?thesis by simp
next
  case (Suc n)
  have "split_on sep (a @ sep # replicate n sep) = split_on sep a @ split_on sep (replicate n sep)"
    by (rule split_on_append)
  with Suc show ?thesis
    by (simp add: split_on_replicate)
qed

lemma walk_append:
  "walk w d (xs @ ys) = (case walk w d xs of Inl e \<Rightarrow> Inl e | Inr p \<Rightarrow> walk w p ys)"
  by (induction xs arbitrary: d) (auto split: option.splits node.splits)

lemma walk_Cons_Inr: "walk w p (c # cs) = Inr q \<Longrightarrow> node_at w p = Some (Dir True)"
  by (simp split: option.splits node.splits if_splits)

lemma walk_empties: "walk w p (replicate k []) = Inr q \<Longrightarrow> q = p"
  by (induction k) (auto split: option.splits node.splits if_splits)

lemma os_path_exists_iff:
  "os_path_exists w s \<longleftrightarrow>
     0 \<notin> set s \<and> s \<noteq> [] \<and>
     (\<exists>p n. walk w (start_dir w s) (split_on (of_char CHR ''/'') s) = Inr p \<and> node_at w p = Some n)"
  by (auto simp: os_path_exists_def os_stat_def resolve_def start_dir_def
      split: sum.splits option.splits)



lemma takeWhile_eq_replicate:
  "takeWhile (\<lambda>c. c = x) xs = replicate (length (takeWhile (\<lambda>c. c = x) xs)) x"
  by (induction xs) auto

lemma rev_dropWhile_takeWhile:
  "xs = rev (dropWhile P (rev xs)) @ rev (takeWhile P (rev xs))"
  by (metis rev_append rev_rev_ident takeWhile_dropWhile_id)

lemma rstrip_slash_decompose:
  "\<exists>k. s = rstrip_slash s @ replicate k (of_char CHR ''/'')"
proof -
  let ?P = "\<lambda>c. c = (of_char CHR ''/'' :: nat)"
  have "s = rev (dropWhile ?P (rev s)) @ rev (takeWhile ?P (rev s))"
    by (rule rev_dropWhile_takeWhile)
  moreover have "rev (takeWhile ?P (rev s)) =
                   replicate (length (takeWhile ?P (rev s))) (of_char CHR ''/'')"
    by (subst takeWhile_eq_replicate) simp
  ultimately have "s = rstrip_slash s @ replicate (length (takeWhile ?P (rev s))) (of_char CHR ''/'')"
    by (simp add: rstrip_slash_def)
  then show ?thesis ..
qed

lemma rstrip_slash_last: "rstrip_slash s \<noteq> [] \<Longrightarrow> last (rstrip_slash s) \<noteq> of_char CHR ''/''"
proof -
  let ?P = "\<lambda>c. c = (of_char CHR ''/'' :: nat)"
  assume n: "rstrip_slash s \<noteq> []"
  then have d: "dropWhile ?P (rev s) \<noteq> []"
    by (simp add: rstrip_slash_def)
  then have "\<not> ?P (hd (dropWhile ?P (rev s)))"
    by (rule hd_dropWhile)
  moreover have "last (rstrip_slash s) = hd (dropWhile ?P (rev s))"
    using d by (simp add: rstrip_slash_def last_rev)
  ultimately show ?thesis
    by simp
qed

lemma rstrip_slash_Nil_iff: "rstrip_slash s = [] \<longleftrightarrow> list_all (\<lambda>c. c = of_char CHR ''/'') s"
  by (auto simp: rstrip_slash_def list_all_iff dropWhile_eq_Nil_conv)

text \<open>The three shapes of the result of \<^verbatim>\<open>os.path.split\<close>.\<close>

lemma os_path_split_shape:
  assumes "os_path_split p = (h, t)"
  shows "of_char CHR ''/'' \<notin> set t \<and>
         (h = [] \<and> p = t \<or>
          h \<noteq> [] \<and> list_all (\<lambda>c. c = of_char CHR ''/'') h \<and> p = h @ t \<or>
          h \<noteq> [] \<and> last h \<noteq> of_char CHR ''/'' \<and>
            (\<exists>k. p = h @ replicate (Suc k) (of_char CHR ''/'') @ t))"
proof -
  let ?Q = "\<lambda>c. c \<noteq> (of_char CHR ''/'' :: nat)"
  define hh where "hh = rev (dropWhile ?Q (rev p))"
  define tt where "tt = rev (takeWhile ?Q (rev p))"
  from assms
  have e: "(if hh \<noteq> [] \<and> \<not> list_all (\<lambda>c. c = of_char CHR ''/'') hh then rstrip_slash hh else hh) = h
           \<and> tt = t"
    unfolding os_path_split_def Let_def prod.inject hh_def tt_def .
  then have t: "tt = t"
    by (rule conjunct2)
  from e
  have h: "(if hh \<noteq> [] \<and> \<not> list_all (\<lambda>c. c = of_char CHR ''/'') hh then rstrip_slash hh else hh) = h"
    by (rule conjunct1)
  have p: "p = hh @ tt"
    unfolding hh_def tt_def by (rule rev_dropWhile_takeWhile)
  have nt: "of_char CHR ''/'' \<notin> set tt"
  proof
    assume "of_char CHR ''/'' \<in> set tt"
    then have "of_char CHR ''/'' \<in> set (takeWhile ?Q (rev p))"
      unfolding tt_def by (simp only: set_rev)
    then have "?Q (of_char CHR ''/'')"
      by (rule set_takeWhileD [THEN conjunct2])
    then show False
      by simp
  qed
  have hl: "last hh = of_char CHR ''/''" if "hh \<noteq> []"
  proof -
    from that have d: "dropWhile ?Q (rev p) \<noteq> []"
      unfolding hh_def by simp
    then have "\<not> ?Q (hd (dropWhile ?Q (rev p)))"
      by (rule hd_dropWhile)
    moreover have "last hh = hd (dropWhile ?Q (rev p))"
      unfolding hh_def using d by (simp only: last_rev)
    ultimately show ?thesis
      by simp
  qed
  show ?thesis
  proof (cases "hh = []")
    case True
    with h have "h = []" by simp
    with True p t nt show ?thesis by simp
  next
    case False
    note hn = False
    show ?thesis
    proof (cases "list_all (\<lambda>c. c = of_char CHR ''/'') hh")
      case True
      with hn h have "h = hh" by simp
      with hn True p t nt show ?thesis by simp
    next
      case False
      with hn h have hr: "h = rstrip_slash hh" by simp
      from False have hne: "h \<noteq> []"
        unfolding hr by (simp only: rstrip_slash_Nil_iff not_False_eq_True)
      then have hl': "last h \<noteq> of_char CHR ''/''"
        unfolding hr by (rule rstrip_slash_last)
      obtain k where k: "hh = h @ replicate k (of_char CHR ''/'')"
        unfolding hr using rstrip_slash_decompose [of hh] by blast
      have "k \<noteq> 0"
      proof
        assume "k = 0"
        with k have "hh = h" by simp
        with hl [OF hn] hl' show False by simp
      qed
      then obtain j where j: "k = Suc j"
        by (cases k) auto
      have "p = h @ replicate (Suc j) (of_char CHR ''/'') @ t"
        unfolding p k j t by simp
      then have "\<exists>k. p = h @ replicate (Suc k) (of_char CHR ''/'') @ t" ..
      with hne hl' nt t show ?thesis
        by blast
    qed
  qed
qed

lemma startswith_append: "h \<noteq> [] \<Longrightarrow> startswith (h @ x) [c] = startswith h [c]"
  by (cases h) simp_all

lemma start_dir_append: "h \<noteq> [] \<Longrightarrow> start_dir w (h @ x) = start_dir w h"
  by (simp add: start_dir_def ascii_def startswith_append)

text \<open>Slashes at the end of a path that exists lead to the same place.\<close>

lemma walk_trailing_slashes:
  assumes "walk w d (split_on (of_char CHR ''/'') (h @ replicate k (of_char CHR ''/''))) = Inr p"
  shows "walk w d (split_on (of_char CHR ''/'') h) = Inr p"
proof -
  from assms have a: "walk w d (split_on (of_char CHR ''/'') h @ replicate k []) = Inr p"
    by (simp only: split_on_append_seps)
  then obtain q where q: "walk w d (split_on (of_char CHR ''/'') h) = Inr q"
    and r: "walk w q (replicate k []) = Inr p"
    unfolding walk_append by (cases "walk w d (split_on (of_char CHR ''/'') h)") simp_all
  from r have "p = q"
    by (rule walk_empties)
  with q show ?thesis
    by simp
qed

lemma os_path_exists_strip:
  assumes "os_path_exists w (h @ replicate k (of_char CHR ''/''))" and "h \<noteq> []"
  shows "os_path_exists w h"
proof -
  let ?s = "h @ replicate k (of_char CHR ''/'')"
  from assms(1) obtain p n where z: "0 \<notin> set ?s"
    and wk: "walk w (start_dir w ?s) (split_on (of_char CHR ''/'') ?s) = Inr p"
    and nd: "node_at w p = Some n"
    unfolding os_path_exists_iff by blast
  have sd: "start_dir w ?s = start_dir w h"
    using assms(2) by (rule start_dir_append)
  from wk have "walk w (start_dir w h) (split_on (of_char CHR ''/'') ?s) = Inr p"
    unfolding sd .
  then have "walk w (start_dir w h) (split_on (of_char CHR ''/'') h) = Inr p"
    by (rule walk_trailing_slashes)
  moreover from z have "0 \<notin> set h"
    by simp
  ultimately show ?thesis
    unfolding os_path_exists_iff using assms(2) nd by blast
qed

text \<open>The system call on a path that exists.\<close>

lemma os_mkdir_exists:
  assumes "os_path_exists w s"
  shows "os_mkdir w s = Inl (OSError EEXIST s)"
proof -
  from assms obtain p n where z: "0 \<notin> set s" and ne: "s \<noteq> []"
    and wk: "walk w (start_dir w s) (split_on (of_char CHR ''/'') s) = Inr p"
    and nd: "node_at w p = Some n"
    unfolding os_path_exists_iff by blast
  obtain k where k: "s = rstrip_slash s @ replicate k (of_char CHR ''/'')"
    using rstrip_slash_decompose by blast
  from wk have "walk w (start_dir w s)
                  (split_on (of_char CHR ''/'') (rstrip_slash s @ replicate k (of_char CHR ''/''))) = Inr p"
    by (subst k [symmetric])
  then have "walk w (start_dir w s) (split_on (of_char CHR ''/'') (rstrip_slash s)) = Inr p"
    by (rule walk_trailing_slashes)
  then have "walk w (if startswith s (ascii ''/'') then [] else cwd w)
               (split_on (of_char CHR ''/'') (rstrip_slash s)) = Inr p"
    by (simp only: start_dir_def)
  with z ne nd show ?thesis
    by (simp add: os_mkdir_def)
qed

text \<open>The head that \<^verbatim>\<open>os.path.split\<close> cuts from a path that exists, exists.\<close>

lemma os_path_exists_root: "os_path_exists w (replicate (Suc k) (of_char CHR ''/''))"
proof -
  have n: "node_at w [] = Some (Dir True)"
    by (simp add: node_at_def)
  have "walk w [] (replicate j []) = Inr []" for j
    by (induction j) (simp_all add: n)
  then have "walk w [] (split_on (of_char CHR ''/'') (replicate (Suc k) (of_char CHR ''/''))) = Inr []"
    by (simp only: split_on_replicate)
  moreover have "start_dir w (replicate (Suc k) (of_char CHR ''/'')) = []"
    by (simp add: start_dir_def ascii_def)
  ultimately show ?thesis
    unfolding os_path_exists_iff using n by simp
qed

lemma os_path_exists_head:
  assumes "os_path_exists w p" and "os_path_split p = (h, t)" and "h \<noteq> []" and "t \<noteq> []"
  shows "os_path_exists w h"
proof -
  from os_path_split_shape [OF assms(2)] assms(3)
  consider "list_all (\<lambda>c. c = of_char CHR ''/'') h"
    | k where "last h \<noteq> of_char CHR ''/''" "p = h @ replicate (Suc k) (of_char CHR ''/'') @ t"
    by blast
  then show ?thesis
  proof cases
    case 1
    then have "h = replicate (length h) (of_char CHR ''/'')"
      by (simp add: list_all_iff replicate_length_same)
    moreover obtain j where "length h = Suc j"
      using assms(3) by (cases h) auto
    ultimately have "h = replicate (Suc j) (of_char CHR ''/'')"
      by simp
    then show ?thesis
      using os_path_exists_root [of w j] by simp
  next
    case 2
    let ?r = "replicate k (of_char CHR ''/'') @ t"
    have pe: "p = h @ of_char CHR ''/'' # ?r"
      using 2(2) by simp
    from assms(1) obtain q n where z: "0 \<notin> set p"
      and wk: "walk w (start_dir w p) (split_on (of_char CHR ''/'') p) = Inr q"
      unfolding os_path_exists_iff by blast
    have "split_on (of_char CHR ''/'') p =
            split_on (of_char CHR ''/'') h @ split_on (of_char CHR ''/'') ?r"
      unfolding pe by (rule split_on_append)
    moreover have "start_dir w p = start_dir w h"
      unfolding pe using assms(3) by (rule start_dir_append)
    ultimately have "walk w (start_dir w h)
                        (split_on (of_char CHR ''/'') h @ split_on (of_char CHR ''/'') ?r) = Inr q"
      using wk by simp
    then obtain q1 where q1: "walk w (start_dir w h) (split_on (of_char CHR ''/'') h) = Inr q1"
      and r: "walk w q1 (split_on (of_char CHR ''/'') ?r) = Inr q"
      unfolding walk_append
      by (cases "walk w (start_dir w h) (split_on (of_char CHR ''/'') h)") simp_all
    obtain c cs where "split_on (of_char CHR ''/'') ?r = c # cs"
      using split_on_not_Nil [of "of_char CHR ''/''" ?r]
      by (cases "split_on (of_char CHR ''/'') ?r") auto
    with r have "node_at w q1 = Some (Dir True)"
      using walk_Cons_Inr by simp
    moreover from z have "0 \<notin> set h"
      unfolding pe by simp
    ultimately show ?thesis
      unfolding os_path_exists_iff using assms(3) q1 by blast
  qed
qed

lemma os_makedirs_exists:
  assumes "os_path_exists w name"
  shows "os_makedirs w name = (Some (OSError EEXIST name), w)"
proof -
  obtain head tail where ht: "makedirs_head_tail name = (head, tail)"
    by (cases "makedirs_head_tail name")
  have "os_path_exists w head" if hn: "head \<noteq> []" and tn: "tail \<noteq> []"
  proof (cases "snd (os_path_split name) = []")
    case False
    with ht have "os_path_split name = (head, tail)"
      by (simp add: makedirs_head_tail_def)
    with assms show ?thesis
      using hn tn by (rule os_path_exists_head)
  next
    case True
    obtain h1 where s1: "os_path_split name = (h1, [])"
      using True by (cases "os_path_split name") auto
    with ht True have s2: "os_path_split h1 = (head, tail)"
      by (simp add: makedirs_head_tail_def)
    from os_path_split_shape [OF s1]
    consider "h1 = []" | "h1 \<noteq> []" "list_all (\<lambda>c. c = of_char CHR ''/'') h1"
      | k where "h1 \<noteq> []" "name = h1 @ replicate (Suc k) (of_char CHR ''/'') @ []"
      by blast
    then show ?thesis
    proof cases
      case 1
      with s2 have "head = []"
        by (simp add: os_path_split_def)
      with hn show ?thesis by simp
    next
      case 2
      from os_path_split_shape [OF s2] hn tn
      have "of_char CHR ''/'' \<notin> set tail \<and> set tail \<subseteq> set h1"
        by auto
      with 2(2) tn have False
        by (cases tail) (auto simp: list_all_iff)
      then show ?thesis ..
    next
      case 3
      from assms 3(2) have "os_path_exists w (h1 @ replicate (Suc k) (of_char CHR ''/''))"
        by simp
      then have "os_path_exists w h1"
        using 3(1) by (rule os_path_exists_strip)
      then show ?thesis
        using s2 hn tn by (rule os_path_exists_head)
    qed
  qed
  with ht have "\<not> (fst (makedirs_head_tail name) \<noteq> [] \<and> snd (makedirs_head_tail name) \<noteq> [] \<and>
                  \<not> os_path_exists w (fst (makedirs_head_tail name)))"
    by auto
  then have "os_makedirs w name = mkdir_raise w name"
    by (rule os_makedirs_direct)
  then show ?thesis
    using os_mkdir_exists [OF assms] by (simp add: mkdir_raise_def)
qed

















section \<open>Properties of make-directory\<close>

lemma app_mkdir_existing:
  "os_path_exists w dir_name \<Longrightarrow>
   app_handle_mkdir_robust w (dir_name # rest) =
     ((False, [],
       (ascii ''mkdir: cannot create directory '') @ quoted dir_name @ (ascii '': File exists'')), w)"
  by (simp add: app_handle_mkdir_robust_def os_makedirs_exists)

lemma terminal_mkdir_existing:
  "os_path_exists w dir_name \<Longrightarrow>
   terminal_handle_mkdir_robust w (dir_name # rest) =
     ((False, [],
       (ascii ''mkdir: cannot create directory '') @ quoted dir_name @ (ascii '': File exists'')), w)"
  by (simp add: terminal_handle_mkdir_robust_def os_makedirs_exists)

text \<open>
  Claim C1, as the code has it. When the target of make-directory exists, the handler
  of both files fails and leaves the file system as it is; the message is
  \<^verbatim>\<open>mkdir: cannot create directory '<name>': File exists\<close>, made of the name alone: it is
  the same for a target that is a directory and for one that is a file.
\<close>

theorem mkdir_existing_target:
  assumes "os_path_exists w dir_name"
  shows "app_handle_mkdir_robust w (dir_name # rest) =
           ((False, [],
             (ascii ''mkdir: cannot create directory '') @ quoted dir_name @
             (ascii '': File exists'')), w)
       \<and> terminal_handle_mkdir_robust w (dir_name # rest) =
           ((False, [],
             (ascii ''mkdir: cannot create directory '') @ quoted dir_name @
             (ascii '': File exists'')), w)"
  using assms app_mkdir_existing [of w dir_name rest] terminal_mkdir_existing [of w dir_name rest]
  by blast

lemma docs_is_directory: "os_path_isdir w0 (ascii ''docs'')"
  by (simp add: os_eval w0_def)

lemma docs_is_file: "os_path_isfile w0_file (ascii ''docs'')"
  by (simp add: os_eval w0_file_def w0_def)

lemma notes_is_file: "os_path_isfile w0 (ascii ''notes.txt'')"
  by (simp add: os_eval w0_def)

lemma os_path_isdir_exists: "os_path_isdir w s \<Longrightarrow> os_path_exists w s"
  by (auto simp: os_path_isdir_def os_path_exists_def split: sum.splits)

lemma os_path_isfile_exists: "os_path_isfile w s \<Longrightarrow> os_path_exists w s"
  by (auto simp: os_path_isfile_def os_path_exists_def split: sum.splits)

text \<open>Make-directory on the directory \<^verbatim>\<open>docs\<close> and on the file \<^verbatim>\<open>notes.txt\<close>.\<close>

theorem mkdir_existing_target_witness:
  "os_path_exists w0 (ascii ''docs'') \<and> os_path_isdir w0 (ascii ''docs'') \<and>
   app_handle_mkdir_robust w0 [(ascii ''docs'')] =
     ((False, [],
       (ascii ''mkdir: cannot create directory '') @ quoted (ascii ''docs'') @
       (ascii '': File exists'')), w0) \<and>
   os_path_exists w0 (ascii ''notes.txt'') \<and> os_path_isfile w0 (ascii ''notes.txt'') \<and>
   terminal_handle_mkdir_robust w0 [(ascii ''notes.txt'')] =
     ((False, [],
       (ascii ''mkdir: cannot create directory '') @ quoted (ascii ''notes.txt'') @
       (ascii '': File exists'')), w0)"
proof -
  have a: "os_path_exists w0 (ascii ''docs'')"
    using docs_is_directory by (rule os_path_isdir_exists)
  have b: "os_path_exists w0 (ascii ''notes.txt'')"
    using notes_is_file by (rule os_path_isfile_exists)
  from mkdir_existing_target [OF a, of "[]"] mkdir_existing_target [OF b, of "[]"]
    a b docs_is_directory notes_is_file
  show ?thesis
    by blast
qed

text \<open>
  The claim as stated fails: make-directory with the name \<^verbatim>\<open>docs\<close> returns the same
  message when \<^verbatim>\<open>docs\<close> is a directory and when it is a file.
\<close>

theorem mkdir_message_counterexample:
  "os_path_isdir w0 (ascii ''docs'') \<and> os_path_isfile w0_file (ascii ''docs'')
   \<and> fst (app_handle_mkdir_robust w0 [(ascii ''docs'')]) =
       (False, [],
        (ascii ''mkdir: cannot create directory '') @ quoted (ascii ''docs'') @
        (ascii '': File exists''))
   \<and> fst (app_handle_mkdir_robust w0_file [(ascii ''docs'')]) =
       (False, [],
        (ascii ''mkdir: cannot create directory '') @ quoted (ascii ''docs'') @
        (ascii '': File exists''))
   \<and> fst (terminal_handle_mkdir_robust w0 [(ascii ''docs'')]) =
       fst (terminal_handle_mkdir_robust w0_file [(ascii ''docs'')])"
proof -
  have a: "os_path_exists w0 (ascii ''docs'')"
    using docs_is_directory by (rule os_path_isdir_exists)
  have b: "os_path_exists w0_file (ascii ''docs'')"
    using docs_is_file by (rule os_path_isfile_exists)
  show ?thesis
    using docs_is_directory docs_is_file
    by (simp add: app_mkdir_existing [OF a] app_mkdir_existing [OF b]
        terminal_mkdir_existing [OF a] terminal_mkdir_existing [OF b])
qed










end
